theory Spec2Isabelle
  imports Main "HOL-Library.Sublist"
begin

section \<open>Python strings\<close>

text \<open>
  A Python \<open>str\<close> is a sequence of Unicode code points. The regular expressions of the
  program are matched on code points (with \<open>re.IGNORECASE\<close> a few non-ASCII letters match
  ASCII ones) and \<open>str.strip\<close> removes Unicode white space, so a string is modelled as the
  list of its code points and not as a list of bytes.
\<close>

type_synonym codepoint = nat
type_synonym pystr = "codepoint list"

text \<open>A string literal of the source (all literals used here are ASCII).\<close>

definition str_of :: "string \<Rightarrow> pystr" where
  "str_of s = map of_char s"

text \<open>
  \<open>str.isspace\<close> on one code point: the code points with bidirectional type WS, B or S or
  category Zs, as listed by CPython's \<open>_PyUnicode_IsWhitespace\<close>.
\<close>

definition py_isspace :: "codepoint \<Rightarrow> bool" where
  "py_isspace c \<longleftrightarrow>
     (9 \<le> c \<and> c \<le> 13) \<or> (28 \<le> c \<and> c \<le> 32) \<or> c = 133 \<or> c = 160 \<or> c = 5760 \<or>
     (8192 \<le> c \<and> c \<le> 8202) \<or> c = 8232 \<or> c = 8233 \<or> c = 8239 \<or> c = 8287 \<or> c = 12288"

text \<open>\<open>s.strip()\<close>: leading and trailing white space removed.\<close>

definition py_strip :: "pystr \<Rightarrow> pystr" where
  "py_strip s = rev (dropWhile py_isspace (rev (dropWhile py_isspace s)))"

text \<open>\<open>s.split('\n')\<close>: the pieces between line feeds; never the empty list.\<close>

fun split_nl :: "pystr \<Rightarrow> pystr list" where
  "split_nl [] = [[]]"
| "split_nl (c # cs) =
     (if c = 10 then [] # split_nl cs
      else (let r = split_nl cs in (c # hd r) # tl r))"

text \<open>\<open>p in s\<close> for strings: \<open>p\<close> occurs in \<open>s\<close> as a contiguous substring.\<close>

fun py_in :: "pystr \<Rightarrow> pystr \<Rightarrow> bool" where
  "py_in p [] = (p = [])"
| "py_in p (c # cs) = (prefix p (c # cs) \<or> py_in p cs)"

section \<open>The regular expressions of the program\<close>

subsection \<open>\<open>/explore/([a-f0-9]{24})\<close>, searched with \<open>re.search\<close>\<close>

text \<open>The character class \<open>[a-f0-9]\<close> (no flag: exactly these 16 code points).\<close>

definition is_hex_lower :: "codepoint \<Rightarrow> bool" where
  "is_hex_lower c \<longleftrightarrow> (97 \<le> c \<and> c \<le> 102) \<or> (48 \<le> c \<and> c \<le> 57)"

definition explore_literal :: pystr where
  "explore_literal = str_of ''/explore/''"

text \<open>
  The pattern matched at the start of \<open>s\<close>: the literal, then exactly 24 characters of the
  class. The value is group 1. The pattern has one way to match at a position, so there is
  no backtracking to model.
\<close>

definition match_explore_here :: "pystr \<Rightarrow> pystr option" where
  "match_explore_here s =
     (if prefix explore_literal s then
        (let tok = take 24 (drop (length explore_literal) s)
         in if length tok = 24 \<and> list_all is_hex_lower tok then Some tok else None)
      else None)"

text \<open>\<open>re.search\<close>: the match at the leftmost position that has one.\<close>

fun search_explore :: "pystr \<Rightarrow> pystr option" where
  "search_explore [] = match_explore_here []"
| "search_explore (c # cs) =
     (case match_explore_here (c # cs) of
        Some tok \<Rightarrow> Some tok
      | None \<Rightarrow> search_explore cs)"

subsection \<open>The three patterns of \<open>validate_xhs_url\<close>, matched with \<open>re.match\<close> and \<open>re.IGNORECASE\<close>\<close>

text \<open>
  One literal pattern character \<open>p\<close> against one text character \<open>c\<close> under
  \<open>re.IGNORECASE\<close> on \<open>str\<close>. Every pattern character of the program is a lowercase ASCII
  letter or one of \<open>:\<close>, \<open>/\<close>, \<open>.\<close>. A lowercase ASCII letter matches itself and its
  uppercase form; beyond ASCII, as the documentation of \<open>re.IGNORECASE\<close> lists, \<open>i\<close> also
  matches U+0130 and U+0131, \<open>s\<close> matches U+017F and \<open>k\<close> matches U+212A. The other three
  characters match only themselves.
\<close>

definition ignorecase_matches :: "codepoint \<Rightarrow> codepoint \<Rightarrow> bool" where
  "ignorecase_matches p c \<longleftrightarrow>
     c = p \<or> (97 \<le> p \<and> p \<le> 122 \<and> c + 32 = p) \<or>
     (p = 105 \<and> (c = 304 \<or> c = 305)) \<or> (p = 115 \<and> c = 383) \<or> (p = 107 \<and> c = 8490)"

text \<open>A literal piece of a pattern, matched at the start of \<open>s\<close>.\<close>

definition literal_here :: "pystr \<Rightarrow> pystr \<Rightarrow> bool" where
  "literal_here lit s \<longleftrightarrow>
     length lit \<le> length s \<and> list_all2 ignorecase_matches lit (take (length lit) s)"

text \<open>
  \<open>.*lit\<close> matched at the start of \<open>s\<close>: \<open>.\<close> is any character but the line feed (no
  \<open>re.DOTALL\<close>), and the engine backtracks over every length of \<open>.*\<close>.
\<close>

fun dotstar_literal :: "pystr \<Rightarrow> pystr \<Rightarrow> bool" where
  "dotstar_literal lit [] = literal_here lit []"
| "dotstar_literal lit (c # cs) =
     (literal_here lit (c # cs) \<or> (c \<noteq> 10 \<and> dotstar_literal lit cs))"

text \<open>\<open>^xhsdiscover://.*\<close>: the trailing \<open>.*\<close> matches the empty string.\<close>

definition match_app_scheme :: "pystr \<Rightarrow> bool" where
  "match_app_scheme url = literal_here (str_of ''xhsdiscover://'') url"

text \<open>\<open>^https?://.*<domain>.*\<close>, the domain being a literal with its dot escaped.\<close>

definition match_after_scheme :: "pystr \<Rightarrow> pystr \<Rightarrow> bool" where
  "match_after_scheme domain r \<longleftrightarrow>
     literal_here (str_of ''://'') r \<and> dotstar_literal domain (drop 3 r)"

definition match_web :: "pystr \<Rightarrow> pystr \<Rightarrow> bool" where
  "match_web domain url \<longleftrightarrow>
     literal_here (str_of ''http'') url \<and>
     (let r = drop 4 url
      in (literal_here (str_of ''s'') r \<and> match_after_scheme domain (drop 1 r)) \<or>
         match_after_scheme domain r)"

section \<open>The pure functions\<close>

text \<open>\<open>XhsUrlProcessor.extract_id_from_url\<close>: group 1 of the first match, or \<open>None\<close>.\<close>

definition extract_id_from_url :: "pystr \<Rightarrow> pystr option" where
  "extract_id_from_url url = search_explore url"

text \<open>\<open>XhsUrlProcessor.convert_to_app_url\<close>: the f-string around the identifier.\<close>

definition convert_to_app_url :: "pystr \<Rightarrow> pystr" where
  "convert_to_app_url item_id =
     str_of ''xhsdiscover://item/'' @ item_id @ str_of ''?source=pcweb_access_limit''"

text \<open>\<open>QRScanner.validate_xhs_url\<close>: the first pattern that matches decides.\<close>

definition validate_xhs_url :: "pystr \<Rightarrow> bool" where
  "validate_xhs_url url \<longleftrightarrow>
     match_app_scheme url \<or>
     match_web (str_of ''xiaohongshu.com'') url \<or>
     match_web (str_of ''xhslink.com'') url"

section \<open>The environment: external commands, the screen, standard input\<close>

text \<open>
  What \<open>subprocess.run\<close> can do: complete with an exit status and an output text, or raise
  \<open>subprocess.TimeoutExpired\<close>, \<open>FileNotFoundError\<close> (the executable is missing) or another
  exception. The error text of a completed command is only printed and is left out.
\<close>

datatype proc_outcome =
    Completed int pystr
  | TimeoutExpired
  | FileNotFoundError
  | OtherException

text \<open>
  The three command lines the program builds:
  \<open>adb devices\<close>;
  \<open>adb shell am start -a android.intent.action.VIEW -d <url> <package>\<close>;
  \<open>adb shell input tap <x> <y>\<close>.
\<close>

datatype command =
    AdbDevices
  | AmStart pystr pystr
  | InputTap int int

text \<open>
  What one pass of \<open>capture_screen_center\<close> and \<open>pyzbar.decode\<close> can do: raise, or give the
  texts of the decoded objects in the order reported.
\<close>

datatype scan_outcome =
    ScanRaised
  | Decoded "pystr list"

text \<open>One call of \<open>input()\<close>: a line, or Ctrl-C. The end of the list is the end of input.\<close>

datatype input_item =
    Line pystr
  | KeyboardInterrupt

text \<open>
  The effects a run leaves behind, in order: each external command started, each
  \<open>time.sleep\<close>, each screen grab, and the line \<open>process_single_url\<close> prints first, which
  names the item it was called on. Other printed lines do not steer the program and are
  not recorded.
\<close>

datatype event =
    Subprocess command
  | Sleep int
  | Grab
  | Processing pystr

text \<open>
  The environment answers the \<open>k\<close>-th external command and the \<open>k\<close>-th screen scan of a
  run; it is arbitrary. Ctrl-C is modelled where the program handles it, at \<open>input()\<close>.
\<close>

record env =
  subprocess_run :: "nat \<Rightarrow> proc_outcome"
  screen_scan :: "nat \<Rightarrow> scan_outcome"

record world =
  calls :: nat
  scans :: nat
  stdin :: "input_item list"
  trace :: "event list"

definition initial_world :: "input_item list \<Rightarrow> world" where
  "initial_world inp = \<lparr>calls = 0, scans = 0, stdin = inp, trace = []\<rparr>"

text \<open>A function either returns a value or lets an exception escape.\<close>

datatype 'a outcome =
    Returned 'a
  | Raised

definition subprocess :: "env \<Rightarrow> command \<Rightarrow> world \<Rightarrow> proc_outcome \<times> world" where
  "subprocess e cmd w =
     (subprocess_run e (calls w),
      w\<lparr>calls := Suc (calls w), trace := trace w @ [Subprocess cmd]\<rparr>)"

text \<open>\<open>time.sleep(secs)\<close>: raises \<open>ValueError\<close> on a negative length (the value \<open>None\<close>).\<close>

definition py_sleep :: "int \<Rightarrow> world \<Rightarrow> world option" where
  "py_sleep secs w = (if secs < 0 then None else Some (w\<lparr>trace := trace w @ [Sleep secs]\<rparr>))"

definition grab_and_decode :: "env \<Rightarrow> world \<Rightarrow> scan_outcome \<times> world" where
  "grab_and_decode e w =
     (screen_scan e (scans w), w\<lparr>scans := Suc (scans w), trace := trace w @ [Grab]\<rparr>)"

section \<open>The device bridge\<close>

definition adb_package :: pystr where
  "adb_package = str_of ''com.xingin.xhs''"

text \<open>
  The test \<open>result.returncode == 0\<close> and the \<open>except\<close> clauses that follow it: every exception
  of the command is caught and gives \<open>False\<close>.
\<close>

definition exit_ok :: "proc_outcome \<Rightarrow> bool" where
  "exit_ok r =
     (case r of
        Completed rc out \<Rightarrow> rc = 0
      | TimeoutExpired \<Rightarrow> False
      | FileNotFoundError \<Rightarrow> False
      | OtherException \<Rightarrow> False)"

text \<open>\<open>execute_adb_command\<close>, the same text in \<open>QRScanner\<close> and \<open>XhsUrlProcessor\<close>.\<close>

definition execute_adb_command :: "env \<Rightarrow> pystr \<Rightarrow> world \<Rightarrow> bool \<times> world" where
  "execute_adb_command e url w =
     (let (r, w1) = subprocess e (AmStart url adb_package) w in (exit_ok r, w1))"

text \<open>
  \<open>QRScanner.click_coordinate(x, y, delay=2)\<close>: the sleep is inside the \<open>try\<close>, so its
  \<open>ValueError\<close> is caught too.
\<close>

definition QRScanner_click_coordinate ::
  "env \<Rightarrow> int \<Rightarrow> int \<Rightarrow> int \<Rightarrow> world \<Rightarrow> bool \<times> world" where
  "QRScanner_click_coordinate e x y delay w =
     (case py_sleep delay w of
        None \<Rightarrow> (False, w)
      | Some w1 \<Rightarrow> (let (r, w2) = subprocess e (InputTap x y) w1 in (exit_ok r, w2)))"

text \<open>\<open>XhsUrlProcessor.click_coordinate(x, y)\<close>: the settle time is the constant 2.\<close>

definition XhsUrlProcessor_click_coordinate ::
  "env \<Rightarrow> int \<Rightarrow> int \<Rightarrow> world \<Rightarrow> bool \<times> world" where
  "XhsUrlProcessor_click_coordinate e x y w =
     (case py_sleep 2 w of
        None \<Rightarrow> (False, w)
      | Some w1 \<Rightarrow> (let (r, w2) = subprocess e (InputTap x y) w1 in (exit_ok r, w2)))"

text \<open>
  The lines of \<open>adb devices\<close> that count as devices: after the first line of the stripped
  output, those that are not blank and contain \<open>device\<close>.
\<close>

definition connected_devices :: "pystr \<Rightarrow> pystr list" where
  "connected_devices out =
     filter (\<lambda>line. py_strip line \<noteq> [] \<and> py_in (str_of ''device'') line)
       (tl (split_nl (py_strip out)))"

text \<open>
  \<open>check_adb_connection\<close>: both classes compute the same list and catch every exception.
\<close>

definition check_adb_connection :: "env \<Rightarrow> world \<Rightarrow> bool \<times> world" where
  "check_adb_connection e w =
     (let (r, w1) = subprocess e AdbDevices w
      in (case r of
            Completed rc out \<Rightarrow> rc = 0 \<and> connected_devices out \<noteq> []
          | TimeoutExpired \<Rightarrow> False
          | FileNotFoundError \<Rightarrow> False
          | OtherException \<Rightarrow> False,
          w1))"

section \<open>Scan mode: \<open>QRScanner.run\<close>\<close>

text \<open>\<open>scan_qr_code\<close> returns inside its loop: the first decoded object, or \<open>None\<close>.\<close>

definition scan_qr_code :: "pystr list \<Rightarrow> pystr option" where
  "scan_qr_code decoded_objects =
     (case decoded_objects of [] \<Rightarrow> None | qr_data # _ \<Rightarrow> Some qr_data)"

text \<open>
  The \<open>try\<close> block of one iteration of \<open>run\<close>. \<open>Some b\<close> is \<open>return b\<close>; \<open>None\<close> is reaching
  the end of the block, also through \<open>except Exception\<close>. The test \<open>if qr_content\<close> is false
  for \<open>None\<close> and for the empty string.
\<close>

definition scan_attempt :: "env \<Rightarrow> world \<Rightarrow> bool option \<times> world" where
  "scan_attempt e w =
     (let (s, w1) = grab_and_decode e w
      in case s of
           ScanRaised \<Rightarrow> (None, w1)
         | Decoded decoded_objects \<Rightarrow>
             (case scan_qr_code decoded_objects of
                None \<Rightarrow> (None, w1)
              | Some qr_content \<Rightarrow>
                  if qr_content \<noteq> [] then
                    if validate_xhs_url qr_content then
                      (let (ok, w2) = execute_adb_command e qr_content w1
                       in if ok then
                            (let (clicked, w3) = QRScanner_click_coordinate e 800 2210 2 w2
                             in if clicked then (Some True, w3) else (Some True, w3))
                          else (Some False, w2))
                    else (None, w1)
                  else (None, w1)))"

text \<open>
  The \<open>for\<close> loop of \<open>run\<close> over the attempt numbers still to come. The sleep between
  attempts is outside the \<open>try\<close>: its \<open>ValueError\<close> escapes.
\<close>

fun run_attempts :: "env \<Rightarrow> int \<Rightarrow> int \<Rightarrow> int list \<Rightarrow> world \<Rightarrow> bool outcome \<times> world" where
  "run_attempts e max_attempts delay [] w = (Returned False, w)"
| "run_attempts e max_attempts delay (attempt # rest) w =
     (let (r, w1) = scan_attempt e w
      in case r of
           Some b \<Rightarrow> (Returned b, w1)
         | None \<Rightarrow>
             if attempt < max_attempts then
               (case py_sleep delay w1 of
                  None \<Rightarrow> (Raised, w1)
                | Some w2 \<Rightarrow> run_attempts e max_attempts delay rest w2)
             else run_attempts e max_attempts delay rest w1)"

text \<open>\<open>run(max_attempts, delay)\<close>; \<open>range(1, max_attempts + 1)\<close> is \<open>[1..max_attempts]\<close>.\<close>

definition run :: "env \<Rightarrow> int \<Rightarrow> int \<Rightarrow> world \<Rightarrow> bool outcome \<times> world" where
  "run e max_attempts delay w =
     (let (connected, w1) = check_adb_connection e w
      in if \<not> connected then (Returned False, w1)
         else run_attempts e max_attempts delay [1..max_attempts] w1)"

section \<open>Batch mode: \<open>XhsUrlProcessor\<close>\<close>

text \<open>\<open>process_single_url\<close>. \<open>not item_id\<close> holds for \<open>None\<close> and for the empty string.\<close>

definition process_single_url :: "env \<Rightarrow> pystr \<Rightarrow> world \<Rightarrow> bool \<times> world" where
  "process_single_url e url w =
     (let w0 = w\<lparr>trace := trace w @ [Processing url]\<rparr>
      in case extract_id_from_url (py_strip url) of
           None \<Rightarrow> (False, w0)
         | Some item_id \<Rightarrow>
             if item_id = [] then (False, w0)
             else
               (let app_url = convert_to_app_url item_id;
                    (ok, w1) = execute_adb_command e app_url w0
                in if ok then
                     (let (clicked, w2) = XhsUrlProcessor_click_coordinate e 865 2690 w1
                      in if clicked then (True, w2) else (True, w2))
                   else (False, w1)))"

text \<open>What opening and reading the file can do.\<close>

datatype file_outcome =
    FileMissing
  | FileUnreadable
  | FileLines "pystr list"

text \<open>
  The loop of \<open>process_urls_from_file\<close>: \<open>i\<close> counts from 1, \<open>n\<close> is \<open>len(urls)\<close>, the value
  is \<open>success_count\<close>.
\<close>

fun file_loop :: "env \<Rightarrow> nat \<Rightarrow> nat \<Rightarrow> nat \<Rightarrow> pystr list \<Rightarrow> world \<Rightarrow> nat \<times> world" where
  "file_loop e n i success_count [] w = (success_count, w)"
| "file_loop e n i success_count (url # rest) w =
     (let (ok, w1) = process_single_url e url w;
          success_count1 = (if ok then success_count + 1 else success_count);
          w2 = (if i < n then (case py_sleep 1 w1 of None \<Rightarrow> w1 | Some w' \<Rightarrow> w') else w1)
      in file_loop e n (i + 1) success_count1 rest w2)"

text \<open>
  \<open>process_urls_from_file\<close>. The function returns nothing; the value here is the pair
  it prints in its last line, \<open>success_count\<close> and \<open>len(urls)\<close>, or \<open>None\<close> when it leaves
  before that line.
\<close>

definition process_urls_from_file ::
  "env \<Rightarrow> file_outcome \<Rightarrow> world \<Rightarrow> (nat \<times> nat) option \<times> world" where
  "process_urls_from_file e file w =
     (case file of
        FileMissing \<Rightarrow> (None, w)
      | FileUnreadable \<Rightarrow> (None, w)
      | FileLines ls \<Rightarrow>
          (let urls = map py_strip (filter (\<lambda>line. py_strip line \<noteq> []) ls)
           in if urls = [] then (None, w)
              else
                (let (connected, w1) = check_adb_connection e w
                 in if \<not> connected then (None, w1)
                    else
                      (let (success_count, w2) = file_loop e (length urls) 1 0 urls w1
                       in (Some (success_count, length urls), w2)))))"

text \<open>
  The reading loop of \<open>process_urls_from_input\<close>: a blank line or the end of input ends
  it with the lines read, Ctrl-C makes the function return (\<open>None\<close>).
\<close>

fun read_urls :: "pystr list \<Rightarrow> input_item list \<Rightarrow> pystr list option \<times> input_item list" where
  "read_urls urls [] = (Some urls, [])"
| "read_urls urls (KeyboardInterrupt # rest) = (None, rest)"
| "read_urls urls (Line l # rest) =
     (if py_strip l = [] then (Some urls, rest) else read_urls (urls @ [py_strip l]) rest)"

text \<open>
  \<open>continue_choice == 'q'\<close> after \<open>strip().lower()\<close>: the only strings that lower to \<open>q\<close>
  are \<open>q\<close> and \<open>Q\<close>.
\<close>

definition is_quit :: "pystr \<Rightarrow> bool" where
  "is_quit l \<longleftrightarrow> py_strip l = str_of ''q'' \<or> py_strip l = str_of ''Q''"

text \<open>
  The processing loop of \<open>process_urls_from_input\<close>. Between two items it asks whether to go
  on; \<open>q\<close> or Ctrl-C leaves the loop, and the end of input there raises \<open>EOFError\<close>,
  which nothing catches.
\<close>

fun input_loop ::
  "env \<Rightarrow> nat \<Rightarrow> nat \<Rightarrow> nat \<Rightarrow> pystr list \<Rightarrow> world \<Rightarrow> nat outcome \<times> world" where
  "input_loop e n i success_count [] w = (Returned success_count, w)"
| "input_loop e n i success_count (url # rest) w =
     (let (ok, w1) = process_single_url e url w;
          success_count1 = (if ok then success_count + 1 else success_count)
      in if i < n then
           (case stdin w1 of
              [] \<Rightarrow> (Raised, w1)
            | KeyboardInterrupt # inp \<Rightarrow> (Returned success_count1, w1\<lparr>stdin := inp\<rparr>)
            | Line l # inp \<Rightarrow>
                if is_quit l then (Returned success_count1, w1\<lparr>stdin := inp\<rparr>)
                else input_loop e n (i + 1) success_count1 rest (w1\<lparr>stdin := inp\<rparr>))
         else input_loop e n (i + 1) success_count1 rest w1)"

text \<open>\<open>process_urls_from_input\<close>, with the same value as the file variant.\<close>

definition process_urls_from_input ::
  "env \<Rightarrow> world \<Rightarrow> (nat \<times> nat) option outcome \<times> world" where
  "process_urls_from_input e w =
     (let (connected, w1) = check_adb_connection e w
      in if \<not> connected then (Returned None, w1)
         else
           (let (read, inp) = read_urls [] (stdin w1);
                w2 = w1\<lparr>stdin := inp\<rparr>
            in case read of
                 None \<Rightarrow> (Returned None, w2)
               | Some urls \<Rightarrow>
                   if urls = [] then (Returned None, w2)
                   else
                     (let (r, w3) = input_loop e (length urls) 1 0 urls w2
                      in case r of
                           Raised \<Rightarrow> (Raised, w3)
                         | Returned success_count \<Rightarrow>
                             (Returned (Some (success_count, length urls)), w3))))"

section \<open>Observations on a run\<close>

text \<open>The items \<open>process_single_url\<close> was called on, in the order of the calls.\<close>

fun processed :: "event list \<Rightarrow> pystr list" where
  "processed [] = []"
| "processed (Processing url # evs) = url # processed evs"
| "processed (_ # evs) = processed evs"

text \<open>The links handed to \<open>adb shell am start\<close>, in order.\<close>

fun dispatched :: "event list \<Rightarrow> pystr list" where
  "dispatched [] = []"
| "dispatched (Subprocess (AmStart url package) # evs) = url # dispatched evs"
| "dispatched (_ # evs) = dispatched evs"

text \<open>The coordinates handed to \<open>adb shell input tap\<close>, in order.\<close>

fun taps :: "event list \<Rightarrow> (int \<times> int) list" where
  "taps [] = []"
| "taps (Subprocess (InputTap x y) # evs) = (x, y) # taps evs"
| "taps (_ # evs) = taps evs"

text \<open>
  The values the successive calls of \<open>process_single_url\<close> return in the loop of
  \<open>process_urls_from_file\<close>: the loop itself keeps only their count.
\<close>

fun file_results :: "env \<Rightarrow> nat \<Rightarrow> nat \<Rightarrow> pystr list \<Rightarrow> world \<Rightarrow> bool list" where
  "file_results e n i [] w = []"
| "file_results e n i (url # rest) w =
     (let (ok, w1) = process_single_url e url w;
          w2 = (if i < n then (case py_sleep 1 w1 of None \<Rightarrow> w1 | Some w' \<Rightarrow> w') else w1)
      in ok # file_results e n (i + 1) rest w2)"

text \<open>The same for the loop of \<open>process_urls_from_input\<close>, up to where it is left.\<close>

fun input_results :: "env \<Rightarrow> nat \<Rightarrow> nat \<Rightarrow> pystr list \<Rightarrow> world \<Rightarrow> bool list" where
  "input_results e n i [] w = []"
| "input_results e n i (url # rest) w =
     (let (ok, w1) = process_single_url e url w
      in if i < n then
           (case stdin w1 of
              [] \<Rightarrow> [ok]
            | KeyboardInterrupt # inp \<Rightarrow> [ok]
            | Line l # inp \<Rightarrow>
                if is_quit l then [ok]
                else ok # input_results e n (i + 1) rest (w1\<lparr>stdin := inp\<rparr>))
         else ok # input_results e n (i + 1) rest w1)"

section \<open>Example inputs and environments\<close>

text \<open>The output of \<open>adb devices\<close> with one device attached, and with none.\<close>

definition one_device :: pystr where
  "one_device =
     str_of ''List of devices attached'' @ [10] @ str_of ''emulator-5554'' @ [9] @
     str_of ''device'' @ [10, 10]"

definition no_device :: pystr where
  "no_device = str_of ''List of devices attached'' @ [10, 10]"

definition example_url :: pystr where
  "example_url =
     str_of ''https://www.xiaohongshu.com/explore/652b91f0000000001f03b570?xsec_token=abc''"

definition example_id :: pystr where
  "example_id = str_of ''652b91f0000000001f03b570''"

definition example_link :: pystr where
  "example_link =
     str_of ''xhsdiscover://item/652b91f0000000001f03b570?source=pcweb_access_limit''"

text \<open>Every scan decodes the example URL.\<close>

definition scan_example_url :: "nat \<Rightarrow> scan_outcome" where
  "scan_example_url k = Decoded [example_url]"

text \<open>A device is attached and every command exits with status 0.\<close>

definition env_all_ok :: env where
  "env_all_ok =
     \<lparr>subprocess_run = (\<lambda>k. Completed 0 one_device), screen_scan = scan_example_url\<rparr>"

text \<open>
  A device is attached and the first command after the check, a dispatch, exits with
  status 0; every later command exits with status 1.
\<close>

definition env_tap_fails :: env where
  "env_tap_fails =
     \<lparr>subprocess_run = (\<lambda>k. if k \<le> 1 then Completed 0 one_device else Completed 1 []),
      screen_scan = scan_example_url\<rparr>"

text \<open>No device is attached.\<close>

definition env_no_device :: env where
  "env_no_device =
     \<lparr>subprocess_run = (\<lambda>k. Completed 0 no_device), screen_scan = scan_example_url\<rparr>"

text \<open>The check finds a device; after it the executable is missing.\<close>

definition env_adb_vanishes :: env where
  "env_adb_vanishes =
     \<lparr>subprocess_run = (\<lambda>k. if k = 0 then Completed 0 one_device else FileNotFoundError),
      screen_scan = scan_example_url\<rparr>"

text \<open>A device is attached, every command exits with status 0, every scan decodes a
  link of another site.\<close>

definition other_url :: pystr where
  "other_url = str_of ''https://example.com/other''"

definition env_other_qr :: env where
  "env_other_qr =
     \<lparr>subprocess_run = (\<lambda>k. Completed 0 one_device), screen_scan = (\<lambda>k. Decoded [other_url])\<rparr>"

section \<open>The identifier extractor\<close>

lemma explore_literal_eq: "explore_literal = [47,101,120,112,108,111,114,101,47]"
  by (simp add: explore_literal_def str_of_def)

lemma length_explore_literal: "length explore_literal = 9"
  by (simp add: explore_literal_eq)

lemma match_explore_here_Some_iff:
  "match_explore_here s = Some tok \<longleftrightarrow>
     (\<exists>rest. s = explore_literal @ tok @ rest) \<and> length tok = 24 \<and> list_all is_hex_lower tok"
proof
  assume m: "match_explore_here s = Some tok"
  then have p: "prefix explore_literal s"
    and t: "tok = take 24 (drop 9 s)" and l: "length tok = 24" and h: "list_all is_hex_lower tok"
    by (auto simp: match_explore_here_def Let_def length_explore_literal split: if_splits)
  from p obtain r where r: "s = explore_literal @ r" by (auto simp: prefix_def)
  with t have "tok = take 24 r" by (simp add: length_explore_literal)
  then have "r = tok @ drop 24 r" by simp
  with r l h show "(\<exists>rest. s = explore_literal @ tok @ rest) \<and> length tok = 24 \<and> list_all is_hex_lower tok"
    by metis
next
  assume "(\<exists>rest. s = explore_literal @ tok @ rest) \<and> length tok = 24 \<and> list_all is_hex_lower tok"
  then show "match_explore_here s = Some tok"
    by (auto simp: match_explore_here_def Let_def length_explore_literal)
qed

lemma match_explore_here_extend:
  "match_explore_here s = Some tok \<Longrightarrow> match_explore_here (s @ x) = Some tok"
  by (auto simp: match_explore_here_Some_iff)

lemma search_explore_Nil: "search_explore [] = None"
  by (simp add: match_explore_here_def explore_literal_eq)

lemma hex_nth: "list_all is_hex_lower t \<Longrightarrow> i < length t \<Longrightarrow> is_hex_lower (t ! i)"
  by (simp add: list_all_length)

lemma match_explore_here_inside:
  assumes m: "match_explore_here (s @ u) = Some tok" and ne: "s \<noteq> []"
    and u: "prefix explore_literal u"
  shows "match_explore_here s = Some tok"
proof -
  from m obtain r where eq: "s @ u = explore_literal @ tok @ r"
    and l: "length tok = 24" and h: "list_all is_hex_lower tok"
    by (auto simp: match_explore_here_Some_iff)
  from u obtain u' where u': "u = explore_literal @ u'" by (auto simp: prefix_def)
  let ?n = "length s"
  have a: "(s @ u) ! ?n = 47" by (simp add: u' explore_literal_eq nth_append)
  have b: "(s @ u) ! (?n + 2) = 120" by (simp add: u' explore_literal_eq nth_append)
  have n0: "0 < ?n" using ne by simp
  have big: "33 \<le> ?n"
  proof (rule ccontr)
    assume "\<not> 33 \<le> ?n"
    then have n33: "?n < 33" by simp
    show False
    proof (cases "?n < 9")
      case True
      with n0 have "?n = 1 \<or> ?n = 2 \<or> ?n = 3 \<or> ?n = 4 \<or> ?n = 5 \<or> ?n = 6 \<or> ?n = 7 \<or> ?n = 8"
        by arith
      moreover have "(explore_literal @ tok @ r) ! ?n = explore_literal ! ?n"
        using True by (simp add: nth_append length_explore_literal)
      ultimately have n8: "?n = 8" using a unfolding eq
        by (auto simp: explore_literal_eq)
      have "(explore_literal @ tok @ r) ! 10 = tok ! 1"
        using l by (simp add: nth_append length_explore_literal)
      with b n8 eq have "tok ! 1 = 120" by simp
      moreover have "is_hex_lower (tok ! 1)" using h l by (simp add: hex_nth)
      ultimately show False by (simp add: is_hex_lower_def)
    next
      case False
      then have "?n - 9 < 24" using n33 by arith
      with False have "(explore_literal @ tok @ r) ! ?n = tok ! (?n - 9)"
        using l by (simp add: nth_append length_explore_literal)
      with a eq have "tok ! (?n - 9) = 47" by simp
      moreover have "is_hex_lower (tok ! (?n - 9))" using h l n33 False by (simp add: hex_nth)
      ultimately show False by (simp add: is_hex_lower_def)
    qed
  qed
  have "s = take ?n (explore_literal @ tok @ r)" using eq by (metis append_eq_conv_conj)
  also have "\<dots> = explore_literal @ tok @ take (?n - 33) r"
    using big l by (simp add: length_explore_literal)
  finally show ?thesis using l h by (auto simp: match_explore_here_Some_iff)
qed

lemma search_explore_Some_occurs:
  "search_explore s = Some tok \<Longrightarrow>
     \<exists>pre rest. s = pre @ explore_literal @ tok @ rest \<and> length tok = 24 \<and> list_all is_hex_lower tok
       \<and> search_explore pre = None"
proof (induction s)
  case Nil
  then show ?case by (simp add: match_explore_here_def explore_literal_eq)
next
  case (Cons c cs)
  show ?case
  proof (cases "match_explore_here (c # cs)")
    case (Some t)
    with Cons.prems have "t = tok" by simp
    with Some obtain rest where "c # cs = [] @ explore_literal @ tok @ rest"
      "length tok = 24" "list_all is_hex_lower tok"
      by (auto simp: match_explore_here_Some_iff)
    with search_explore_Nil show ?thesis by blast
  next
    case None
    with Cons.prems have "search_explore cs = Some tok" by simp
    from Cons.IH[OF this] obtain pre rest where
      *: "cs = pre @ explore_literal @ tok @ rest" "length tok = 24" "list_all is_hex_lower tok"
         "search_explore pre = None" by blast
    have "match_explore_here (c # pre) = None"
    proof (cases "match_explore_here (c # pre)")
      case (Some t)
      from match_explore_here_extend[OF this, of "explore_literal @ tok @ rest"] None *
      show ?thesis by simp
    qed simp
    then have "search_explore (c # pre) = None" using * by simp
    with * show ?thesis by (metis append_Cons)
  qed
qed

lemma search_explore_first:
  assumes "search_explore pre = None" "length tok = 24" "list_all is_hex_lower tok"
  shows "search_explore (pre @ explore_literal @ tok @ rest) = Some tok"
  using assms(1)
proof (induction pre)
  case Nil
  have "match_explore_here (explore_literal @ tok @ rest) = Some tok"
    using assms by (auto simp: match_explore_here_Some_iff)
  then show ?case by (simp add: explore_literal_eq)
next
  case (Cons c p)
  from Cons.prems have n: "match_explore_here (c # p) = None" and s: "search_explore p = None"
    by (auto split: option.splits)
  have "match_explore_here ((c # p) @ explore_literal @ tok @ rest) = None"
  proof (cases "match_explore_here ((c # p) @ explore_literal @ tok @ rest)")
    case (Some t)
    from match_explore_here_inside[OF this] n show ?thesis by simp
  qed simp
  with Cons.IH[OF s] show ?case by simp
qed

lemma search_explore_None_iff:
  "search_explore s = None \<longleftrightarrow>
     \<not> (\<exists>pre tok rest. s = pre @ explore_literal @ tok @ rest \<and> length tok = 24 \<and> list_all is_hex_lower tok)"
proof
  assume n: "search_explore s = None"
  show "\<not> (\<exists>pre tok rest. s = pre @ explore_literal @ tok @ rest \<and> length tok = 24 \<and> list_all is_hex_lower tok)"
  proof
    assume "\<exists>pre tok rest. s = pre @ explore_literal @ tok @ rest \<and> length tok = 24 \<and> list_all is_hex_lower tok"
    then obtain pre tok rest where *: "s = pre @ explore_literal @ tok @ rest" "length tok = 24" "list_all is_hex_lower tok"
      by blast
    have "search_explore (pre @ explore_literal @ tok @ rest) \<noteq> None"
    proof (induction pre)
      case Nil
      have "match_explore_here (explore_literal @ tok @ rest) = Some tok"
        using * by (auto simp: match_explore_here_Some_iff)
      then show ?case by (simp add: explore_literal_eq)
    next
      case (Cons c p)
      then show ?case by (auto split: option.splits)
    qed
    with n * show False by simp
  qed
next
  assume a: "\<not> (\<exists>pre tok rest. s = pre @ explore_literal @ tok @ rest \<and> length tok = 24 \<and> list_all is_hex_lower tok)"
  show "search_explore s = None"
  proof (cases "search_explore s")
    case (Some t)
    from search_explore_Some_occurs[OF this] a show ?thesis by blast
  qed simp
qed

text \<open>
  C1, as the code has it. The extractor fails exactly on the strings with no occurrence of
  \<open>/explore/\<close> followed by at least 24 characters of \<open>[a-f0-9]\<close>; a token it returns is
  the 24 characters right after the leftmost such occurrence. Nothing is required of the
  character after them, so a longer run of such characters is cut to its first 24.
\<close>

theorem extract_id_from_url_characterised:
  "(extract_id_from_url url = None \<longleftrightarrow>
      \<not> (\<exists>pre tok rest. url = pre @ explore_literal @ tok @ rest \<and>
            length tok = 24 \<and> list_all is_hex_lower tok)) \<and>
   (\<forall>tok. extract_id_from_url url = Some tok \<longrightarrow>
      (\<exists>pre rest. url = pre @ explore_literal @ tok @ rest \<and>
         length tok = 24 \<and> list_all is_hex_lower tok \<and> extract_id_from_url pre = None))"
  unfolding extract_id_from_url_def
  using search_explore_None_iff[of url] search_explore_Some_occurs[of url] by blast

theorem extract_id_from_url_characterised_witness:
  "extract_id_from_url (str_of ''https://www.xiaohongshu.com/explore/652b91f0000000001f03b570a'') =
     Some (str_of ''652b91f0000000001f03b570'') \<and>
   (\<exists>pre rest. str_of ''https://www.xiaohongshu.com/explore/652b91f0000000001f03b570a'' =
        pre @ explore_literal @ str_of ''652b91f0000000001f03b570'' @ rest \<and>
      length (str_of ''652b91f0000000001f03b570'') = 24 \<and>
      list_all is_hex_lower (str_of ''652b91f0000000001f03b570'') \<and>
      extract_id_from_url pre = None)"
proof -
  have h: "extract_id_from_url
      (str_of ''https://www.xiaohongshu.com/explore/652b91f0000000001f03b570a'') =
     Some (str_of ''652b91f0000000001f03b570'')"
    by (simp add: extract_id_from_url_def str_of_def match_explore_here_def explore_literal_def
      is_hex_lower_def)
  with extract_id_from_url_characterised
    [of "str_of ''https://www.xiaohongshu.com/explore/652b91f0000000001f03b570a''"]
  show ?thesis by blast
qed

text \<open>
  C1 as stated fails: after \<open>/explore/\<close> come 25 characters of \<open>[a-f0-9]\<close>, which is not
  exactly 24, and the extractor returns the first 24 of them.
\<close>

theorem extract_id_truncates_longer_token:
  "str_of ''https://www.xiaohongshu.com/explore/652b91f0000000001f03b570a'' =
     str_of ''https://www.xiaohongshu.com'' @ explore_literal @ str_of ''652b91f0000000001f03b570a'' \<and>
   length (str_of ''652b91f0000000001f03b570a'') = 25 \<and>
   list_all is_hex_lower (str_of ''652b91f0000000001f03b570a'') \<and>
   extract_id_from_url (str_of ''https://www.xiaohongshu.com/explore/652b91f0000000001f03b570a'') =
     Some (str_of ''652b91f0000000001f03b570'')"
  by (simp add: extract_id_from_url_def str_of_def match_explore_here_def explore_literal_def
      is_hex_lower_def)

text \<open>
  C3. A URL made of a part with no such segment, then \<open>/explore/\<close>, then 24 characters of
  \<open>[a-f0-9]\<close>, then anything: the extractor returns exactly these 24 characters. The example
  of the specification gives the identifier and the link stated there.
\<close>

theorem extract_id_from_url_first_segment:
  assumes "length tok = 24" and "list_all is_hex_lower tok"
    and "extract_id_from_url pre = None"
  shows "extract_id_from_url (pre @ explore_literal @ tok @ rest) = Some tok \<and>
    extract_id_from_url
      (str_of ''https://www.xiaohongshu.com/explore/652b91f0000000001f03b570?xsec_token=abc'') =
      Some (str_of ''652b91f0000000001f03b570'') \<and>
    convert_to_app_url (str_of ''652b91f0000000001f03b570'') =
      str_of ''xhsdiscover://item/652b91f0000000001f03b570?source=pcweb_access_limit''"
proof -
  have "extract_id_from_url (pre @ explore_literal @ tok @ rest) = Some tok"
    using assms by (simp add: extract_id_from_url_def search_explore_first)
  moreover have "extract_id_from_url
      (str_of ''https://www.xiaohongshu.com/explore/652b91f0000000001f03b570?xsec_token=abc'') =
      Some (str_of ''652b91f0000000001f03b570'')"
    by (simp add: extract_id_from_url_def str_of_def match_explore_here_def explore_literal_def
      is_hex_lower_def)
  moreover have "convert_to_app_url (str_of ''652b91f0000000001f03b570'') =
      str_of ''xhsdiscover://item/652b91f0000000001f03b570?source=pcweb_access_limit''"
    by (simp add: convert_to_app_url_def str_of_def)
  ultimately show ?thesis by simp
qed

theorem extract_id_from_url_first_segment_witness:
  "length (str_of ''652b91f0000000001f03b570'') = 24 \<and>
   list_all is_hex_lower (str_of ''652b91f0000000001f03b570'') \<and>
   extract_id_from_url (str_of ''https://www.xiaohongshu.com'') = None \<and>
   extract_id_from_url
     (str_of ''https://www.xiaohongshu.com'' @ explore_literal @
      str_of ''652b91f0000000001f03b570'' @ str_of ''?xsec_token=abc'') =
     Some (str_of ''652b91f0000000001f03b570'')"
proof -
  have 1: "length (str_of ''652b91f0000000001f03b570'') = 24"
    by (simp add: str_of_def)
  have 2: "list_all is_hex_lower (str_of ''652b91f0000000001f03b570'')"
    by (simp add: str_of_def is_hex_lower_def)
  have 3: "extract_id_from_url (str_of ''https://www.xiaohongshu.com'') = None"
    by (simp add: extract_id_from_url_def str_of_def match_explore_here_def explore_literal_def)
  from extract_id_from_url_first_segment[OF 1 2 3, of "str_of ''?xsec_token=abc''"] 1 2 3
  show ?thesis by simp
qed

section \<open>The deep-link builder\<close>

text \<open>
  C4. The link is the scheme \<open>xhsdiscover\<close>, \<open>://item/\<close>, the identifier, \<open>?source=\<close> and
  the tag \<open>pcweb_access_limit\<close>, for every identifier. The builder takes the identifier
  only and touches no state; equal identifiers give equal links, and only they do.
\<close>

theorem convert_to_app_url_form:
  "convert_to_app_url item_id =
     str_of ''xhsdiscover'' @ str_of ''://item/'' @ item_id @ str_of ''?source='' @
     str_of ''pcweb_access_limit'' \<and>
   (convert_to_app_url a = convert_to_app_url b \<longleftrightarrow> a = b)"
  by (simp add: convert_to_app_url_def str_of_def)

theorem convert_to_app_url_form_witness:
  "convert_to_app_url (str_of ''652b91f0000000001f03b570'') =
     str_of ''xhsdiscover://item/652b91f0000000001f03b570?source=pcweb_access_limit''"
  using convert_to_app_url_form[of "str_of ''652b91f0000000001f03b570''"]
  by (simp add: str_of_def)

section \<open>The payload validator\<close>

lemma literal_here_append:
  "list_all2 ignorecase_matches lit p \<Longrightarrow> literal_here lit (p @ s)"
  by (simp add: literal_here_def list_all2_lengthD)

lemma dotstar_literal_skip:
  "10 \<notin> set mid \<Longrightarrow> literal_here lit s \<Longrightarrow> dotstar_literal lit (mid @ s)"
proof (induction mid)
  case Nil
  then show ?case by (cases s) simp_all
next
  case (Cons c mid)
  then show ?case by simp
qed

lemma match_web_http:
  assumes p: "list_all2 ignorecase_matches (str_of ''http://'') p"
    and d: "dotstar_literal domain s"
  shows "match_web domain (p @ s)"
proof -
  have "str_of ''http://'' = str_of ''http'' @ str_of ''://''" by (simp add: str_of_def)
  with p obtain a b where ab: "p = a @ b" "list_all2 ignorecase_matches (str_of ''http'') a"
    "list_all2 ignorecase_matches (str_of ''://'') b"
    by (auto simp: list_all2_append1)
  then have la: "length a = 4" and lb: "length b = 3"
    by (auto dest!: list_all2_lengthD simp: str_of_def)
  have "literal_here (str_of ''http'') (a @ b @ s)" using ab by (simp add: literal_here_append)
  moreover have "match_after_scheme domain (b @ s)"
    using ab d lb by (simp add: match_after_scheme_def literal_here_append)
  ultimately show ?thesis using ab la by (simp add: match_web_def Let_def)
qed

lemma match_web_https:
  assumes p: "list_all2 ignorecase_matches (str_of ''https://'') p"
    and d: "dotstar_literal domain s"
  shows "match_web domain (p @ s)"
proof -
  have "str_of ''https://'' = str_of ''http'' @ str_of ''s'' @ str_of ''://''" by (simp add: str_of_def)
  with p obtain a c b where ab: "p = a @ c @ b" "list_all2 ignorecase_matches (str_of ''http'') a"
    "list_all2 ignorecase_matches (str_of ''s'') c"
    "list_all2 ignorecase_matches (str_of ''://'') b"
    by (auto simp: list_all2_append1)
  then have la: "length a = 4" and lc: "length c = 1" and lb: "length b = 3"
    by (auto dest!: list_all2_lengthD simp: str_of_def)
  have "literal_here (str_of ''http'') (a @ c @ b @ s)" using ab by (simp add: literal_here_append)
  moreover have "literal_here (str_of ''s'') (c @ b @ s)" using ab by (simp add: literal_here_append)
  moreover have "match_after_scheme domain (b @ s)"
    using ab d lb by (simp add: match_after_scheme_def literal_here_append)
  ultimately show ?thesis using ab la lc by (simp add: match_web_def Let_def)
qed

text \<open>
  C10, as the code has it. A string is accepted when it starts with \<open>http://\<close> or
  \<open>https://\<close> in any letter case and \<open>xiaohongshu.com\<close> or \<open>xhslink.com\<close>, in any letter
  case, occurs anywhere after that on the same line: no line feed may stand between the
  scheme and the occurrence. Where the occurrence stands in the URL is not checked.
\<close>

theorem validate_xhs_url_accepts:
  assumes "list_all2 ignorecase_matches (str_of ''http://'') scheme \<or>
           list_all2 ignorecase_matches (str_of ''https://'') scheme"
    and "list_all2 ignorecase_matches (str_of ''xiaohongshu.com'') host \<or>
         list_all2 ignorecase_matches (str_of ''xhslink.com'') host"
    and "10 \<notin> set mid"
  shows "validate_xhs_url (scheme @ mid @ host @ rest)"
proof -
  from assms(2) obtain domain
    where dom: "domain = str_of ''xiaohongshu.com'' \<or> domain = str_of ''xhslink.com''"
      and h: "list_all2 ignorecase_matches domain host" by blast
  have "dotstar_literal domain (mid @ host @ rest)"
    using assms(3) h by (simp add: dotstar_literal_skip literal_here_append)
  with assms(1) have "match_web domain (scheme @ mid @ host @ rest)"
    by (auto intro: match_web_http match_web_https)
  with dom show ?thesis by (auto simp: validate_xhs_url_def)
qed

theorem validate_xhs_url_accepts_witness:
  "validate_xhs_url (str_of ''https://evil.example/xiaohongshu.com'')"
proof -
  have 1: "list_all2 ignorecase_matches (str_of ''https://'') (str_of ''https://'')"
    by (simp add: str_of_def ignorecase_matches_def)
  have 2: "list_all2 ignorecase_matches (str_of ''xiaohongshu.com'') (str_of ''xiaohongshu.com'')"
    by (simp add: str_of_def ignorecase_matches_def)
  have 3: "10 \<notin> set (str_of ''evil.example/'')" by (simp add: str_of_def)
  from validate_xhs_url_accepts[OF disjI2[OF 1] disjI1[OF 2] 3, of "[]"]
  show ?thesis by (simp add: str_of_def)
qed

text \<open>
  C10 as stated fails: the string starts with \<open>https://\<close> and contains \<open>xiaohongshu.com\<close>
  later, after a line feed, and is rejected.
\<close>

theorem validate_xhs_url_stops_at_line_feed:
  "prefix (str_of ''https://'') (str_of ''https://a'' @ [10] @ str_of ''xiaohongshu.com'') \<and>
   py_in (str_of ''xiaohongshu.com'') (str_of ''https://a'' @ [10] @ str_of ''xiaohongshu.com'') \<and>
   \<not> validate_xhs_url (str_of ''https://a'' @ [10] @ str_of ''xiaohongshu.com'')"
  by (simp add: str_of_def validate_xhs_url_def match_app_scheme_def match_web_def
      match_after_scheme_def literal_here_def ignorecase_matches_def Let_def)

section \<open>The steps of the device bridge\<close>

lemma subprocess_simp:
  "subprocess e cmd w =
     (subprocess_run e (calls w), w\<lparr>calls := Suc (calls w), trace := trace w @ [Subprocess cmd]\<rparr>)"
  by (simp add: subprocess_def)

lemma execute_adb_command_simp:
  "execute_adb_command e url w =
     (exit_ok (subprocess_run e (calls w)),
      w\<lparr>calls := Suc (calls w), trace := trace w @ [Subprocess (AmStart url adb_package)]\<rparr>)"
  by (simp add: execute_adb_command_def subprocess_def)

lemma QRScanner_click_coordinate_simp:
  "QRScanner_click_coordinate e x y 2 w =
     (exit_ok (subprocess_run e (calls w)),
      w\<lparr>calls := Suc (calls w), trace := trace w @ [Sleep 2, Subprocess (InputTap x y)]\<rparr>)"
  by (simp add: QRScanner_click_coordinate_def subprocess_def py_sleep_def)

lemma XhsUrlProcessor_click_coordinate_simp:
  "XhsUrlProcessor_click_coordinate e x y w =
     (exit_ok (subprocess_run e (calls w)),
      w\<lparr>calls := Suc (calls w), trace := trace w @ [Sleep 2, Subprocess (InputTap x y)]\<rparr>)"
  by (simp add: XhsUrlProcessor_click_coordinate_def subprocess_def py_sleep_def)

lemma check_adb_connection_world:
  "snd (check_adb_connection e w) =
     w\<lparr>calls := Suc (calls w), trace := trace w @ [Subprocess AdbDevices]\<rparr>"
  by (simp add: check_adb_connection_def subprocess_def)

text \<open>The four ways one attempt can go.\<close>

lemma scan_attempt_cases:
  "scan_attempt e w =
     (let w1 = w\<lparr>scans := Suc (scans w), trace := trace w @ [Grab]\<rparr>
      in case screen_scan e (scans w) of
           ScanRaised \<Rightarrow> (None, w1)
         | Decoded ds \<Rightarrow>
             (case ds of
                [] \<Rightarrow> (None, w1)
              | q # qs \<Rightarrow>
                  if q = [] \<or> \<not> validate_xhs_url q then (None, w1)
                  else if \<not> exit_ok (subprocess_run e (calls w)) then
                    (Some False,
                     w1\<lparr>calls := Suc (calls w),
                        trace := trace w @ [Grab, Subprocess (AmStart q adb_package)]\<rparr>)
                  else
                    (Some True,
                     w1\<lparr>calls := Suc (Suc (calls w)),
                        trace := trace w @ [Grab, Subprocess (AmStart q adb_package), Sleep 2,
                                            Subprocess (InputTap 800 2210)]\<rparr>)))"
  by (simp add: scan_attempt_def grab_and_decode_def scan_qr_code_def execute_adb_command_simp
      QRScanner_click_coordinate_simp Let_def split: scan_outcome.splits list.splits)

section \<open>Scan mode\<close>

lemma taps_append: "taps (a @ b) = taps a @ taps b"
  by (induction a rule: taps.induct) simp_all

lemma dispatched_append: "dispatched (a @ b) = dispatched a @ dispatched b"
  by (induction a rule: dispatched.induct) simp_all

lemma processed_append: "processed (a @ b) = processed a @ processed b"
  by (induction a rule: processed.induct) simp_all

text \<open>What one attempt adds to the trace.\<close>

lemma scan_attempt_events:
  "\<exists>evs. trace (snd (scan_attempt e w)) = trace w @ Grab # evs \<and>
     count_list evs Grab = 0 \<and> count_list evs (Subprocess AdbDevices) = 0 \<and>
     set (taps evs) \<subseteq> {(800, 2210)} \<and>
     (\<forall>u \<in> set (dispatched evs). validate_xhs_url u \<and> (\<exists>k qs. screen_scan e k = Decoded (u # qs)))"
  by (auto simp: scan_attempt_cases Let_def split: scan_outcome.splits list.splits)

lemma run_attempts_events:
  "\<exists>evs. trace (snd (run_attempts e m d atts w)) = trace w @ evs \<and>
     count_list evs Grab \<le> length atts \<and> count_list evs (Subprocess AdbDevices) = 0 \<and>
     set (taps evs) \<subseteq> {(800, 2210)} \<and>
     (\<forall>u \<in> set (dispatched evs). validate_xhs_url u \<and> (\<exists>k qs. screen_scan e k = Decoded (u # qs)))"
proof (induction atts arbitrary: w)
  case Nil
  show ?case by simp
next
  case (Cons a atts)
  obtain r w1 where s: "scan_attempt e w = (r, w1)" by (cases "scan_attempt e w")
  from scan_attempt_events[of e w] s obtain ev1 where
    ev1: "trace w1 = trace w @ Grab # ev1" "count_list ev1 Grab = 0"
      "count_list ev1 (Subprocess AdbDevices) = 0" "set (taps ev1) \<subseteq> {(800, 2210)}"
      "\<forall>u \<in> set (dispatched ev1). validate_xhs_url u \<and> (\<exists>k qs. screen_scan e k = Decoded (u # qs))"
    by auto
  have here: "\<exists>evs. trace w1 = trace w @ evs \<and>
     count_list evs Grab \<le> length (a # atts) \<and> count_list evs (Subprocess AdbDevices) = 0 \<and>
     set (taps evs) \<subseteq> {(800, 2210)} \<and>
     (\<forall>u \<in> set (dispatched evs). validate_xhs_url u \<and> (\<exists>k qs. screen_scan e k = Decoded (u # qs)))"
    using ev1 by (intro exI[of _ "Grab # ev1"]) simp
  have later: "\<exists>evs. trace (snd (run_attempts e m d atts w')) = trace w @ evs \<and>
     count_list evs Grab \<le> length (a # atts) \<and> count_list evs (Subprocess AdbDevices) = 0 \<and>
     set (taps evs) \<subseteq> {(800, 2210)} \<and>
     (\<forall>u \<in> set (dispatched evs). validate_xhs_url u \<and> (\<exists>k qs. screen_scan e k = Decoded (u # qs)))"
    if w': "trace w' = trace w1 \<or> trace w' = trace w1 @ [Sleep d]" for w'
  proof -
    from Cons.IH[of w'] obtain ev2 where
      ev2: "trace (snd (run_attempts e m d atts w')) = trace w' @ ev2"
        "count_list ev2 Grab \<le> length atts" "count_list ev2 (Subprocess AdbDevices) = 0"
        "set (taps ev2) \<subseteq> {(800, 2210)}"
        "\<forall>u \<in> set (dispatched ev2). validate_xhs_url u \<and> (\<exists>k qs. screen_scan e k = Decoded (u # qs))"
      by blast
    from w' show ?thesis
    proof
      assume "trace w' = trace w1"
      with ev1 ev2 show ?thesis
        by (intro exI[of _ "Grab # ev1 @ ev2"]) (auto simp: taps_append dispatched_append)
    next
      assume "trace w' = trace w1 @ [Sleep d]"
      with ev1 ev2 show ?thesis
        by (intro exI[of _ "Grab # ev1 @ Sleep d # ev2"]) (auto simp: taps_append dispatched_append)
    qed
  qed
  show ?case
  proof (cases r)
    case (Some b)
    with s here show ?thesis by simp
  next
    case None
    show ?thesis
    proof (cases "a < m")
      case True
      show ?thesis
      proof (cases "d < 0")
        case True
        with None s \<open>a < m\<close> here show ?thesis by (simp add: py_sleep_def)
      next
        case False
        with None s \<open>a < m\<close> later[of "w1\<lparr>trace := trace w1 @ [Sleep d]\<rparr>"]
        show ?thesis by (simp add: py_sleep_def)
      qed
    next
      case False
      with None s later[of w1] show ?thesis by simp
    qed
  qed
qed

lemma run_events:
  "\<exists>evs. trace (snd (run e m d (initial_world inp))) = Subprocess AdbDevices # evs \<and>
     count_list evs Grab \<le> nat m \<and> count_list evs (Subprocess AdbDevices) = 0 \<and>
     set (taps evs) \<subseteq> {(800, 2210)} \<and>
     (\<forall>u \<in> set (dispatched evs). validate_xhs_url u \<and> (\<exists>k qs. screen_scan e k = Decoded (u # qs)))"
proof (cases "fst (check_adb_connection e (initial_world inp))")
  case False
  then have "snd (run e m d (initial_world inp)) = snd (check_adb_connection e (initial_world inp))"
    by (simp add: run_def split_def)
  then show ?thesis by (simp add: check_adb_connection_world initial_world_def)
next
  case True
  then have "snd (run e m d (initial_world inp)) =
      snd (run_attempts e m d [1..m] (snd (check_adb_connection e (initial_world inp))))"
    by (simp add: run_def split_def)
  with run_attempts_events[of e m d "[1..m]" "snd (check_adb_connection e (initial_world inp))"]
  show ?thesis by (auto simp: check_adb_connection_world initial_world_def)
qed

text \<open>
  C5. Whatever the environment does, a run of scan mode grabs the screen at most
  \<open>max_attempts\<close> times (not at all when \<open>max_attempts\<close> is negative) and asks for the
  attached devices exactly once, as its first action. When that check finds no device, the
  run returns \<open>False\<close> and has done nothing else: no grab, no dispatch, no tap.
\<close>

theorem run_attempts_bounded:
  "count_list (trace (snd (run e max_attempts delay (initial_world inp)))) Grab \<le> nat max_attempts \<and>
   count_list (trace (snd (run e max_attempts delay (initial_world inp)))) (Subprocess AdbDevices) = 1 \<and>
   hd (trace (snd (run e max_attempts delay (initial_world inp)))) = Subprocess AdbDevices \<and>
   (\<not> fst (check_adb_connection e (initial_world inp)) \<longrightarrow>
      fst (run e max_attempts delay (initial_world inp)) = Returned False \<and>
      trace (snd (run e max_attempts delay (initial_world inp))) = [Subprocess AdbDevices])"
proof -
  from run_events[of e max_attempts delay inp] obtain evs where
    "trace (snd (run e max_attempts delay (initial_world inp))) = Subprocess AdbDevices # evs"
    "count_list evs Grab \<le> nat max_attempts" "count_list evs (Subprocess AdbDevices) = 0"
    by blast
  moreover have "\<not> fst (check_adb_connection e (initial_world inp)) \<longrightarrow>
      fst (run e max_attempts delay (initial_world inp)) = Returned False \<and>
      trace (snd (run e max_attempts delay (initial_world inp))) = [Subprocess AdbDevices]"
    by (simp add: run_def split_def check_adb_connection_world initial_world_def)
  ultimately show ?thesis by simp
qed

lemma connected_devices_no_device: "connected_devices no_device = []"
  by (simp add: connected_devices_def no_device_def str_of_def py_strip_def py_isspace_def)

lemma connected_devices_one_device: "connected_devices one_device \<noteq> []"
  by (simp add: connected_devices_def one_device_def str_of_def py_strip_def py_isspace_def)

text \<open>With no device attached, the run of ten attempts stops after the check.\<close>

theorem run_attempts_bounded_witness:
  "\<not> fst (check_adb_connection env_no_device (initial_world [])) \<and>
   fst (run env_no_device 10 3 (initial_world [])) = Returned False \<and>
   trace (snd (run env_no_device 10 3 (initial_world []))) = [Subprocess AdbDevices]"
proof -
  have "\<not> fst (check_adb_connection env_no_device (initial_world []))"
    by (simp add: check_adb_connection_def subprocess_def env_no_device_def
        connected_devices_no_device)
  with run_attempts_bounded[of env_no_device 10 3 "[]"] show ?thesis by simp
qed

section \<open>Batch mode, the loops\<close>

lemma process_single_url_cases:
  "process_single_url e url w =
     (case extract_id_from_url (py_strip url) of
        None \<Rightarrow> (False, w\<lparr>trace := trace w @ [Processing url]\<rparr>)
      | Some item_id \<Rightarrow>
          if item_id = [] then (False, w\<lparr>trace := trace w @ [Processing url]\<rparr>)
          else if \<not> exit_ok (subprocess_run e (calls w)) then
            (False,
             w\<lparr>calls := Suc (calls w),
               trace := trace w @ [Processing url,
                 Subprocess (AmStart (convert_to_app_url item_id) adb_package)]\<rparr>)
          else
            (True,
             w\<lparr>calls := Suc (Suc (calls w)),
               trace := trace w @ [Processing url,
                 Subprocess (AmStart (convert_to_app_url item_id) adb_package), Sleep 2,
                 Subprocess (InputTap 865 2690)]\<rparr>))"
  by (simp add: process_single_url_def execute_adb_command_simp
      XhsUrlProcessor_click_coordinate_simp Let_def split: option.splits)

lemma process_single_url_stdin: "stdin (snd (process_single_url e url w)) = stdin w"
  by (simp add: process_single_url_cases split: option.splits)

lemma process_single_url_events:
  "\<exists>evs. trace (snd (process_single_url e url w)) = trace w @ Processing url # evs \<and>
     processed evs = [] \<and> set (taps evs) \<subseteq> {(865, 2690)} \<and>
     count_list evs (Sleep 1) = 0 \<and> count_list evs (Subprocess AdbDevices) = 0"
  by (simp add: process_single_url_cases split: option.splits)

lemma py_sleep_1: "py_sleep 1 w = Some (w\<lparr>trace := trace w @ [Sleep 1]\<rparr>)"
  by (simp add: py_sleep_def)

lemma file_loop_events:
  "\<exists>evs. trace (snd (file_loop e n i c urls w)) = trace w @ evs \<and>
     processed evs = urls \<and> set (taps evs) \<subseteq> {(865, 2690)} \<and>
     count_list evs (Sleep 1) = min (length urls) (n - i) \<and>
     count_list evs (Subprocess AdbDevices) = 0"
proof (induction urls arbitrary: i c w)
  case Nil
  show ?case by simp
next
  case (Cons url rest)
  obtain ok w1 where p: "process_single_url e url w = (ok, w1)"
    by (cases "process_single_url e url w")
  from process_single_url_events[of e url w] p obtain ev1 where
    ev1: "trace w1 = trace w @ Processing url # ev1" "processed ev1 = []"
      "set (taps ev1) \<subseteq> {(865, 2690)}" "count_list ev1 (Sleep 1) = 0"
      "count_list ev1 (Subprocess AdbDevices) = 0"
    by auto
  let ?c = "if ok then c + 1 else c"
  show ?case
  proof (cases "i < n")
    case True
    from Cons.IH[of "i + 1" ?c "w1\<lparr>trace := trace w1 @ [Sleep 1]\<rparr>"] obtain ev2 where
      ev2: "trace (snd (file_loop e n (i + 1) ?c rest (w1\<lparr>trace := trace w1 @ [Sleep 1]\<rparr>))) =
              trace w1 @ [Sleep 1] @ ev2"
        "processed ev2 = rest" "set (taps ev2) \<subseteq> {(865, 2690)}"
        "count_list ev2 (Sleep 1) = min (length rest) (n - (i + 1))"
        "count_list ev2 (Subprocess AdbDevices) = 0"
      by auto
    have "trace (snd (file_loop e n i c (url # rest) w)) =
        trace w @ (Processing url # ev1 @ Sleep 1 # ev2)"
      using p True ev1 ev2 by (simp add: py_sleep_1)
    moreover have "min (length (url # rest)) (n - i) = Suc (min (length rest) (n - (i + 1)))"
      using True by (simp add: min_def) arith
    ultimately show ?thesis
      using ev1 ev2 by (intro exI[of _ "Processing url # ev1 @ Sleep 1 # ev2"])
        (simp add: processed_append taps_append)
  next
    case False
    from Cons.IH[of "i + 1" ?c w1] obtain ev2 where
      ev2: "trace (snd (file_loop e n (i + 1) ?c rest w1)) = trace w1 @ ev2"
        "processed ev2 = rest" "set (taps ev2) \<subseteq> {(865, 2690)}"
        "count_list ev2 (Sleep 1) = min (length rest) (n - (i + 1))"
        "count_list ev2 (Subprocess AdbDevices) = 0"
      by auto
    have "trace (snd (file_loop e n i c (url # rest) w)) = trace w @ (Processing url # ev1 @ ev2)"
      using p False ev1 ev2 by simp
    moreover have "min (length (url # rest)) (n - i) = 0" "min (length rest) (n - (i + 1)) = 0"
      using False by simp_all
    ultimately show ?thesis
      using ev1 ev2 by (intro exI[of _ "Processing url # ev1 @ ev2"])
        (simp add: processed_append taps_append)
  qed
qed

lemma file_loop_count:
  "fst (file_loop e n i c urls w) = c + length (filter (\<lambda>ok. ok) (file_results e n i urls w)) \<and>
   length (file_results e n i urls w) = length urls"
proof (induction urls arbitrary: i c w)
  case Nil
  show ?case by simp
next
  case (Cons url rest)
  obtain ok w1 where p: "process_single_url e url w = (ok, w1)"
    by (cases "process_single_url e url w")
  show ?case using p Cons.IH by (simp add: Let_def)
qed

lemma input_loop_events:
  "\<exists>evs. trace (snd (input_loop e n i c urls w)) = trace w @ evs \<and>
     prefix (processed evs) urls \<and> set (taps evs) \<subseteq> {(865, 2690)} \<and>
     count_list evs (Sleep 1) = 0 \<and> count_list evs (Subprocess AdbDevices) = 0 \<and>
     length (input_results e n i urls w) = length (processed evs) \<and>
     (\<forall>c'. fst (input_loop e n i c urls w) = Returned c' \<longrightarrow>
        c' = c + length (filter (\<lambda>ok. ok) (input_results e n i urls w)))"
proof (induction urls arbitrary: i c w)
  case Nil
  show ?case by simp
next
  case (Cons url rest)
  obtain ok w1 where p: "process_single_url e url w = (ok, w1)"
    by (cases "process_single_url e url w")
  from process_single_url_events[of e url w] p obtain ev1 where
    ev1: "trace w1 = trace w @ Processing url # ev1" "processed ev1 = []"
      "set (taps ev1) \<subseteq> {(865, 2690)}" "count_list ev1 (Sleep 1) = 0"
      "count_list ev1 (Subprocess AdbDevices) = 0"
    by auto
  let ?c = "if ok then c + 1 else c"
  have stop: ?case
    if "snd (input_loop e n i c (url # rest) w) = w'" "trace w' = trace w1"
      "input_results e n i (url # rest) w = [ok]"
      "\<forall>c'. fst (input_loop e n i c (url # rest) w) = Returned c' \<longrightarrow> c' = ?c" for w'
    using that ev1 by (intro exI[of _ "Processing url # ev1"]) (auto simp: processed_append)
  have go: ?case
    if "input_loop e n i c (url # rest) w = input_loop e n (i + 1) ?c rest w'"
      "input_results e n i (url # rest) w = ok # input_results e n (i + 1) rest w'"
      "trace w' = trace w1" for w'
  proof -
    from Cons.IH[of "i + 1" ?c w'] obtain ev2 where
      ev2: "trace (snd (input_loop e n (i + 1) ?c rest w')) = trace w' @ ev2"
        "prefix (processed ev2) rest" "set (taps ev2) \<subseteq> {(865, 2690)}"
        "count_list ev2 (Sleep 1) = 0" "count_list ev2 (Subprocess AdbDevices) = 0"
        "length (input_results e n (i + 1) rest w') = length (processed ev2)"
        "\<forall>c'. fst (input_loop e n (i + 1) ?c rest w') = Returned c' \<longrightarrow>
           c' = ?c + length (filter (\<lambda>ok. ok) (input_results e n (i + 1) rest w'))"
      by blast
    show ?thesis
      using that ev1 ev2 by (intro exI[of _ "Processing url # ev1 @ ev2"])
        (auto simp: processed_append taps_append)
  qed
  show ?case
  proof (cases "i < n")
    case False
    with p show ?thesis by (intro go[of w1]) (simp_all add: Let_def)
  next
    case True
    show ?thesis
    proof (cases "stdin w1")
      case Nil
      with p True show ?thesis by (intro stop[of w1]) (simp_all add: Let_def)
    next
      case (Cons x inp)
      show ?thesis
      proof (cases x)
        case KeyboardInterrupt
        with p True Cons show ?thesis
          by (intro stop[of "w1\<lparr>stdin := inp\<rparr>"]) (simp_all add: Let_def)
      next
        case (Line l)
        show ?thesis
        proof (cases "is_quit l")
          case True
          with p \<open>i < n\<close> Cons Line show ?thesis
            by (intro stop[of "w1\<lparr>stdin := inp\<rparr>"]) (simp_all add: Let_def)
        next
          case False
          with p \<open>i < n\<close> Cons Line show ?thesis
            by (intro go[of "w1\<lparr>stdin := inp\<rparr>"]) (simp_all add: Let_def)
        qed
      qed
    qed
  qed
qed

section \<open>Batch mode, whole runs\<close>

lemma extract_id_nonempty: "extract_id_from_url s = Some tok \<Longrightarrow> tok \<noteq> []"
  unfolding extract_id_from_url_def by (auto dest: search_explore_Some_occurs)

lemma check_adb_connection_stdin: "stdin (snd (check_adb_connection e w)) = stdin w"
  by (simp add: check_adb_connection_world)

lemma process_urls_from_file_unfold:
  "process_urls_from_file e (FileLines ls) w =
     (if map py_strip (filter (\<lambda>line. py_strip line \<noteq> []) ls) = [] then (None, w)
      else if \<not> fst (check_adb_connection e w) then (None, snd (check_adb_connection e w))
      else
        (Some (fst (file_loop e (length (map py_strip (filter (\<lambda>line. py_strip line \<noteq> []) ls))) 1 0
                     (map py_strip (filter (\<lambda>line. py_strip line \<noteq> []) ls))
                     (snd (check_adb_connection e w))),
               length (map py_strip (filter (\<lambda>line. py_strip line \<noteq> []) ls))),
         snd (file_loop e (length (map py_strip (filter (\<lambda>line. py_strip line \<noteq> []) ls))) 1 0
                (map py_strip (filter (\<lambda>line. py_strip line \<noteq> []) ls))
                (snd (check_adb_connection e w)))))"
  by (simp add: process_urls_from_file_def Let_def split_def)

lemma process_urls_from_input_unfold:
  "process_urls_from_input e w =
     (if \<not> fst (check_adb_connection e w) then (Returned None, snd (check_adb_connection e w))
      else
        (case fst (read_urls [] (stdin w)) of
           None \<Rightarrow> (Returned None, (snd (check_adb_connection e w))\<lparr>stdin := snd (read_urls [] (stdin w))\<rparr>)
         | Some urls \<Rightarrow>
             if urls = [] then
               (Returned None, (snd (check_adb_connection e w))\<lparr>stdin := snd (read_urls [] (stdin w))\<rparr>)
             else
               (case fst (input_loop e (length urls) 1 0 urls
                      ((snd (check_adb_connection e w))\<lparr>stdin := snd (read_urls [] (stdin w))\<rparr>)) of
                  Raised \<Rightarrow> Raised
                | Returned success_count \<Rightarrow> Returned (Some (success_count, length urls)),
                snd (input_loop e (length urls) 1 0 urls
                      ((snd (check_adb_connection e w))\<lparr>stdin := snd (read_urls [] (stdin w))\<rparr>)))))"
  by (simp add: process_urls_from_input_def Let_def split_def check_adb_connection_stdin
      split: option.splits outcome.splits)

lemma process_urls_from_file_taps:
  "set (taps (trace (snd (process_urls_from_file e contents (initial_world inp))))) \<subseteq> {(865, 2690)}"
proof (cases contents)
  case (FileLines ls)
  let ?urls = "map py_strip (filter (\<lambda>line. py_strip line \<noteq> []) ls)"
  let ?w1 = "snd (check_adb_connection e (initial_world inp))"
  from file_loop_events[of e "length ?urls" 1 0 ?urls ?w1] obtain evs where
    "trace (snd (file_loop e (length ?urls) 1 0 ?urls ?w1)) = trace ?w1 @ evs"
    "set (taps evs) \<subseteq> {(865, 2690)}" by blast
  with FileLines show ?thesis
    by (simp add: process_urls_from_file_unfold check_adb_connection_world initial_world_def
        taps_append)
qed (simp_all add: process_urls_from_file_def initial_world_def)

lemma process_urls_from_input_events:
  "\<exists>evs. trace (snd (process_urls_from_input e (initial_world inp))) = Subprocess AdbDevices # evs \<and>
     set (taps evs) \<subseteq> {(865, 2690)} \<and> count_list evs (Sleep 1) = 0"
proof -
  let ?w0 = "initial_world inp"
  let ?w2 = "(snd (check_adb_connection e ?w0))\<lparr>stdin := snd (read_urls [] (stdin ?w0))\<rparr>"
  have t2: "trace ?w2 = [Subprocess AdbDevices]"
    by (simp add: check_adb_connection_world initial_world_def)
  show ?thesis
  proof (cases "fst (check_adb_connection e ?w0) \<and>
      (\<exists>urls. fst (read_urls [] (stdin ?w0)) = Some urls \<and> urls \<noteq> [])")
    case False
    then have "trace (snd (process_urls_from_input e ?w0)) = [Subprocess AdbDevices]"
      by (auto simp: process_urls_from_input_unfold check_adb_connection_world initial_world_def
          split: option.splits)
    then show ?thesis by simp
  next
    case True
    then obtain urls where u: "fst (read_urls [] (stdin ?w0)) = Some urls" "urls \<noteq> []"
      and c: "fst (check_adb_connection e ?w0)" by blast
    from input_loop_events[of e "length urls" 1 0 urls ?w2] t2 obtain evs where
      "trace (snd (input_loop e (length urls) 1 0 urls ?w2)) = Subprocess AdbDevices # evs"
      "set (taps evs) \<subseteq> {(865, 2690)}" "count_list evs (Sleep 1) = 0" by auto
    moreover have "snd (process_urls_from_input e ?w0) = snd (input_loop e (length urls) 1 0 urls ?w2)"
      using u c by (simp add: process_urls_from_input_unfold)
    ultimately show ?thesis by simp
  qed
qed

text \<open>
  C9. The tap coordinates do not depend on the payload or on anything the environment
  does: every tap of a scan-mode run is at (800, 2210), and every tap of a batch run, read
  from a file or typed in, is at (865, 2690).
\<close>

theorem tap_coordinates_fixed:
  "set (taps (trace (snd (run e max_attempts delay (initial_world inp))))) \<subseteq> {(800, 2210)} \<and>
   set (taps (trace (snd (process_urls_from_file e contents (initial_world inp))))) \<subseteq> {(865, 2690)} \<and>
   set (taps (trace (snd (process_urls_from_input e (initial_world inp))))) \<subseteq> {(865, 2690)}"
proof -
  from run_events[of e max_attempts delay inp]
  have "set (taps (trace (snd (run e max_attempts delay (initial_world inp))))) \<subseteq> {(800, 2210)}"
    by auto
  moreover from process_urls_from_input_events[of e inp]
  have "set (taps (trace (snd (process_urls_from_input e (initial_world inp))))) \<subseteq> {(865, 2690)}"
    by auto
  ultimately show ?thesis using process_urls_from_file_taps[of e contents inp] by simp
qed

subsection \<open>The examples, evaluated\<close>

lemma check_env_all_ok: "fst (check_adb_connection env_all_ok w)"
  by (simp add: check_adb_connection_def subprocess_def env_all_ok_def connected_devices_one_device)

lemma check_env_tap_fails:
  "check_adb_connection env_tap_fails (initial_world inp) =
     (True, \<lparr>calls = 1, scans = 0, stdin = inp, trace = [Subprocess AdbDevices]\<rparr>)"
  by (simp add: check_adb_connection_def subprocess_def env_tap_fails_def
      connected_devices_one_device initial_world_def)

lemma check_env_adb_vanishes:
  "check_adb_connection env_adb_vanishes (initial_world inp) =
     (True, \<lparr>calls = 1, scans = 0, stdin = inp, trace = [Subprocess AdbDevices]\<rparr>)"
  by (simp add: check_adb_connection_def subprocess_def env_adb_vanishes_def
      connected_devices_one_device initial_world_def)

lemma extract_example_url: "extract_id_from_url example_url = Some example_id"
  by (simp add: extract_id_from_url_def example_url_def example_id_def str_of_def
      match_explore_here_def explore_literal_def is_hex_lower_def)

lemma strip_example_url: "py_strip example_url = example_url"
  by (simp add: py_strip_def example_url_def str_of_def py_isspace_def)

lemma convert_example_id: "convert_to_app_url example_id = example_link"
  by (simp add: convert_to_app_url_def example_id_def example_link_def str_of_def)

lemma validate_example_url: "validate_xhs_url example_url"
  by (simp add: validate_xhs_url_def match_web_def match_after_scheme_def literal_here_def
      ignorecase_matches_def Let_def example_url_def str_of_def)

lemma example_url_nonempty: "example_url \<noteq> []"
  by (simp add: example_url_def str_of_def)

lemma env_tap_fails_fields:
  "subprocess_run env_tap_fails k = (if k \<le> 1 then Completed 0 one_device else Completed 1 [])"
  "screen_scan env_tap_fails k = Decoded [example_url]"
  by (simp_all add: env_tap_fails_def scan_example_url_def)

lemma env_all_ok_fields:
  "subprocess_run env_all_ok k = Completed 0 one_device"
  "screen_scan env_all_ok k = Decoded [example_url]"
  by (simp_all add: env_all_ok_def scan_example_url_def)

lemma env_adb_vanishes_fields:
  "subprocess_run env_adb_vanishes k = (if k = 0 then Completed 0 one_device else FileNotFoundError)"
  "screen_scan env_adb_vanishes k = Decoded [example_url]"
  by (simp_all add: env_adb_vanishes_def scan_example_url_def)

lemma run_env_tap_fails:
  "run env_tap_fails 10 3 (initial_world []) =
     (Returned True,
      \<lparr>calls = 3, scans = 1, stdin = [],
       trace = [Subprocess AdbDevices, Grab, Subprocess (AmStart example_url adb_package),
                Sleep 2, Subprocess (InputTap 800 2210)]\<rparr>)"
  by (simp add: run_def check_env_tap_fails upto.simps[of 1 10] scan_attempt_cases
      validate_example_url example_url_nonempty Let_def env_tap_fails_fields exit_ok_def)

lemma env_other_qr_fields:
  "subprocess_run env_other_qr k = Completed 0 one_device"
  "screen_scan env_other_qr k = Decoded [other_url]"
  by (simp_all add: env_other_qr_def)

lemma check_env_all_ok_world:
  "check_adb_connection env_all_ok (initial_world inp) =
     (True, \<lparr>calls = 1, scans = 0, stdin = inp, trace = [Subprocess AdbDevices]\<rparr>)"
  by (simp add: check_adb_connection_def subprocess_def env_all_ok_fields
      connected_devices_one_device initial_world_def)

lemma check_env_other_qr:
  "check_adb_connection env_other_qr (initial_world inp) =
     (True, \<lparr>calls = 1, scans = 0, stdin = inp, trace = [Subprocess AdbDevices]\<rparr>)"
  by (simp add: check_adb_connection_def subprocess_def env_other_qr_fields
      connected_devices_one_device initial_world_def)

lemma not_validate_other_url: "\<not> validate_xhs_url other_url"
  by (simp add: validate_xhs_url_def match_web_def match_after_scheme_def literal_here_def
      match_app_scheme_def ignorecase_matches_def Let_def other_url_def str_of_def)

lemma not_app_scheme_example_url: "\<not> match_app_scheme example_url"
  by (simp add: match_app_scheme_def literal_here_def ignorecase_matches_def example_url_def
      str_of_def)

lemma run_env_all_ok:
  "run env_all_ok 10 3 (initial_world []) =
     (Returned True,
      \<lparr>calls = 3, scans = 1, stdin = [],
       trace = [Subprocess AdbDevices, Grab, Subprocess (AmStart example_url adb_package),
                Sleep 2, Subprocess (InputTap 800 2210)]\<rparr>)"
  by (simp add: run_def check_env_all_ok_world upto.simps[of 1 10] scan_attempt_cases
      validate_example_url example_url_nonempty Let_def env_all_ok_fields exit_ok_def)

text \<open>
  C2, as the code has it. Scan mode has no extraction and no link-building step. Every link
  a run dispatches is a payload as it was scanned, one the validator accepted, web URL and
  app URI alike: an accepted payload is dispatched unmodified, and the attempt ends the run
  with the outcome of that dispatch. A payload the validator rejects is a soft failure: the
  attempt leaves nothing but its grab, and the loop sleeps and goes on with the next
  attempt.
\<close>

theorem scan_mode_dispatches_payload_unmodified:
  "(\<forall>u \<in> set (dispatched (trace (snd (run e max_attempts delay (initial_world inp))))).
      validate_xhs_url u \<and> (\<exists>k qs. screen_scan e k = Decoded (u # qs))) \<and>
   (screen_scan e (scans w) = Decoded (q # qs) \<and> q \<noteq> [] \<and> validate_xhs_url q \<longrightarrow>
      fst (scan_attempt e w) = Some (exit_ok (subprocess_run e (calls w))) \<and>
      dispatched (trace (snd (scan_attempt e w))) = dispatched (trace w) @ [q]) \<and>
   (screen_scan e (scans w) = Decoded (q # qs) \<and> \<not> validate_xhs_url q \<longrightarrow>
      scan_attempt e w = (None, w\<lparr>scans := Suc (scans w), trace := trace w @ [Grab]\<rparr>) \<and>
      (attempt < max_attempts \<and> 0 \<le> delay \<longrightarrow>
         run_attempts e max_attempts delay (attempt # rest) w =
         run_attempts e max_attempts delay rest
           (w\<lparr>scans := Suc (scans w), trace := trace w @ [Grab, Sleep delay]\<rparr>)))"
proof -
  from run_events[of e max_attempts delay inp]
  have "\<forall>u \<in> set (dispatched (trace (snd (run e max_attempts delay (initial_world inp))))).
      validate_xhs_url u \<and> (\<exists>k qs. screen_scan e k = Decoded (u # qs))"
    by auto
  moreover have "screen_scan e (scans w) = Decoded (q # qs) \<and> q \<noteq> [] \<and> validate_xhs_url q \<longrightarrow>
      fst (scan_attempt e w) = Some (exit_ok (subprocess_run e (calls w))) \<and>
      dispatched (trace (snd (scan_attempt e w))) = dispatched (trace w) @ [q]"
    by (simp add: scan_attempt_cases Let_def dispatched_append)
  moreover have "screen_scan e (scans w) = Decoded (q # qs) \<and> \<not> validate_xhs_url q \<longrightarrow>
      scan_attempt e w = (None, w\<lparr>scans := Suc (scans w), trace := trace w @ [Grab]\<rparr>) \<and>
      (attempt < max_attempts \<and> 0 \<le> delay \<longrightarrow>
         run_attempts e max_attempts delay (attempt # rest) w =
         run_attempts e max_attempts delay rest
           (w\<lparr>scans := Suc (scans w), trace := trace w @ [Grab, Sleep delay]\<rparr>))"
    by (simp add: scan_attempt_cases Let_def py_sleep_def)
  ultimately show ?thesis by blast
qed

lemma run_env_other_qr:
  "fst (run env_other_qr 3 0 (initial_world [])) = Returned False \<and>
   trace (snd (run env_other_qr 3 0 (initial_world []))) =
     [Subprocess AdbDevices, Grab, Sleep 0, Grab, Sleep 0, Grab]"
  by (simp add: run_def check_env_other_qr upto.simps[of 1 3] upto.simps[of 2 3]
      scan_attempt_cases not_validate_other_url Let_def env_other_qr_fields py_sleep_def)

text \<open>
  An accepted web URL is dispatched as scanned; a link of another site is never dispatched
  and the run of three attempts ends with \<open>False\<close>.
\<close>

theorem scan_mode_dispatches_payload_unmodified_witness:
  "dispatched (trace (snd (run env_all_ok 10 3 (initial_world [])))) = [example_url] \<and>
   validate_xhs_url example_url \<and>
   screen_scan env_all_ok 0 = Decoded [example_url] \<and>
   fst (scan_attempt env_all_ok (snd (check_adb_connection env_all_ok (initial_world [])))) =
     Some True \<and>
   screen_scan env_other_qr 0 = Decoded [other_url] \<and> \<not> validate_xhs_url other_url \<and>
   fst (scan_attempt env_other_qr (snd (check_adb_connection env_other_qr (initial_world [])))) =
     None \<and>
   fst (run env_other_qr 3 0 (initial_world [])) = Returned False \<and>
   trace (snd (run env_other_qr 3 0 (initial_world []))) =
     [Subprocess AdbDevices, Grab, Sleep 0, Grab, Sleep 0, Grab]"
proof -
  have a: "screen_scan env_all_ok
      (scans (snd (check_adb_connection env_all_ok (initial_world [])))) = Decoded (example_url # []) \<and>
      example_url \<noteq> [] \<and> validate_xhs_url example_url"
    by (simp add: env_all_ok_fields example_url_nonempty validate_example_url)
  have b: "screen_scan env_other_qr
      (scans (snd (check_adb_connection env_other_qr (initial_world [])))) = Decoded (other_url # []) \<and>
      \<not> validate_xhs_url other_url"
    by (simp add: env_other_qr_fields not_validate_other_url)
  from scan_mode_dispatches_payload_unmodified
    [of env_all_ok 10 3 "[]" "snd (check_adb_connection env_all_ok (initial_world []))"
       example_url "[]" 1 "[]"] a
  have 1: "fst (scan_attempt env_all_ok (snd (check_adb_connection env_all_ok (initial_world [])))) =
     Some True"
    by (simp add: check_env_all_ok_world env_all_ok_fields exit_ok_def)
  from scan_mode_dispatches_payload_unmodified
    [of env_other_qr 3 0 "[]" "snd (check_adb_connection env_other_qr (initial_world []))"
       other_url "[]" 1 "[]"] b
  have 2: "fst (scan_attempt env_other_qr (snd (check_adb_connection env_other_qr (initial_world [])))) =
     None"
    by simp
  show ?thesis
    using 1 2 a b run_env_other_qr by (simp add: run_env_all_ok env_all_ok_fields env_other_qr_fields)
qed

text \<open>
  C2 as stated fails: the scanned payload is a web URL, not an app URI, and the extractor
  has an identifier for it; the run dispatches the URL itself and not the link built from
  the identifier.
\<close>

theorem scan_mode_dispatches_web_url_as_is:
  "validate_xhs_url example_url \<and> \<not> match_app_scheme example_url \<and>
   extract_id_from_url example_url = Some example_id \<and>
   convert_to_app_url example_id = example_link \<and>
   example_link \<noteq> example_url \<and>
   screen_scan env_all_ok 0 = Decoded [example_url] \<and>
   fst (run env_all_ok 10 3 (initial_world [])) = Returned True \<and>
   trace (snd (run env_all_ok 10 3 (initial_world []))) =
     [Subprocess AdbDevices, Grab, Subprocess (AmStart example_url adb_package), Sleep 2,
      Subprocess (InputTap 800 2210)]"
proof -
  have "example_link \<noteq> example_url"
    by (simp add: example_link_def example_url_def str_of_def)
  then show ?thesis
    by (simp add: validate_example_url not_app_scheme_example_url extract_example_url
        convert_example_id run_env_all_ok env_all_ok_fields)
qed

text \<open>
  C6. The dispatch exits with status 0 and the tap that follows it does not. Then the
  attempt of scan mode returns \<open>True\<close>, and so does the run; in batch mode
  \<open>process_single_url\<close> returns \<open>True\<close>, which is what the loop counts. In both the tap
  was made, at the coordinates of the flow.
\<close>

theorem tap_failure_keeps_success:
  assumes "exit_ok (subprocess_run e (calls w))"
    and "\<not> exit_ok (subprocess_run e (Suc (calls w)))"
  shows "(screen_scan e (scans w) = Decoded (q # qs) \<and> q \<noteq> [] \<and> validate_xhs_url q \<longrightarrow>
           fst (scan_attempt e w) = Some True \<and>
           fst (run_attempts e max_attempts delay (attempt # rest) w) = Returned True \<and>
           taps (trace (snd (scan_attempt e w))) = taps (trace w) @ [(800, 2210)]) \<and>
         (extract_id_from_url (py_strip url) = Some tok \<longrightarrow>
           fst (process_single_url e url w) \<and>
           file_results e n i (url # urls) w \<noteq> [] \<and> hd (file_results e n i (url # urls) w) \<and>
           taps (trace (snd (process_single_url e url w))) = taps (trace w) @ [(865, 2690)])"
proof -
  have "screen_scan e (scans w) = Decoded (q # qs) \<and> q \<noteq> [] \<and> validate_xhs_url q \<longrightarrow>
           fst (scan_attempt e w) = Some True \<and>
           fst (run_attempts e max_attempts delay (attempt # rest) w) = Returned True \<and>
           taps (trace (snd (scan_attempt e w))) = taps (trace w) @ [(800, 2210)]"
    using assms(1) by (simp add: scan_attempt_cases Let_def taps_append)
  moreover have "extract_id_from_url (py_strip url) = Some tok \<longrightarrow>
           fst (process_single_url e url w) \<and>
           file_results e n i (url # urls) w \<noteq> [] \<and> hd (file_results e n i (url # urls) w) \<and>
           taps (trace (snd (process_single_url e url w))) = taps (trace w) @ [(865, 2690)]"
    using assms(1) extract_id_nonempty[of "py_strip url" tok]
    by (auto simp: process_single_url_cases Let_def taps_append split_def)
  ultimately show ?thesis by blast
qed

text \<open>The first command after the check succeeds and the next one fails.\<close>

theorem tap_failure_keeps_success_witness:
  "exit_ok (subprocess_run env_tap_fails 1) \<and> \<not> exit_ok (subprocess_run env_tap_fails 2) \<and>
   \<not> fst (QRScanner_click_coordinate env_tap_fails 800 2210 2
      \<lparr>calls = 2, scans = 1, stdin = [], trace = []\<rparr>) \<and>
   fst (scan_attempt env_tap_fails \<lparr>calls = 1, scans = 0, stdin = [], trace = []\<rparr>) = Some True \<and>
   fst (process_single_url env_tap_fails example_url
      \<lparr>calls = 1, scans = 0, stdin = [], trace = []\<rparr>) \<and>
   fst (run env_tap_fails 10 3 (initial_world [])) = Returned True"
proof -
  have 1: "exit_ok (subprocess_run env_tap_fails (calls \<lparr>calls = 1, scans = 0, stdin = [], trace = []\<rparr>))"
    by (simp add: env_tap_fails_fields exit_ok_def)
  have 2: "\<not> exit_ok (subprocess_run env_tap_fails
      (Suc (calls \<lparr>calls = 1, scans = 0, stdin = [], trace = []\<rparr>)))"
    by (simp add: env_tap_fails_fields exit_ok_def)
  have 3: "screen_scan env_tap_fails (scans \<lparr>calls = 1, scans = 0, stdin = [], trace = []\<rparr>) =
      Decoded (example_url # []) \<and> example_url \<noteq> [] \<and> validate_xhs_url example_url"
    by (simp add: env_tap_fails_fields example_url_nonempty validate_example_url)
  have 4: "extract_id_from_url (py_strip example_url) = Some example_id"
    by (simp add: strip_example_url extract_example_url)
  from tap_failure_keeps_success[OF 1 2, of example_url "[]" 10 3 1 "[]" example_url example_id
      1 1 "[]"] 3 4
  have "fst (scan_attempt env_tap_fails \<lparr>calls = 1, scans = 0, stdin = [], trace = []\<rparr>) = Some True \<and>
     fst (process_single_url env_tap_fails example_url
       \<lparr>calls = 1, scans = 0, stdin = [], trace = []\<rparr>)"
    by simp
  moreover have "\<not> fst (QRScanner_click_coordinate env_tap_fails 800 2210 2
      \<lparr>calls = 2, scans = 1, stdin = [], trace = []\<rparr>)"
    by (simp add: QRScanner_click_coordinate_simp env_tap_fails_fields exit_ok_def)
  ultimately show ?thesis
    by (simp add: run_env_tap_fails env_tap_fails_fields exit_ok_def)
qed

text \<open>
  C7, as the code has it. A missing executable at a dispatch is an ordinary dispatch
  failure: \<open>execute_adb_command\<close> catches \<open>FileNotFoundError\<close> and returns \<open>False\<close>. In batch
  mode the item is not counted and the loop goes on with the next input, so that every
  remaining input is still processed; in scan mode the run ends with \<open>False\<close>, as after any
  failed dispatch. Only at the connectivity check does a missing executable end a run
  before any input is processed: the check returns \<open>False\<close>.
\<close>

theorem missing_executable_is_ordinary_failure:
  assumes "subprocess_run e (calls w) = FileNotFoundError"
  shows "\<not> fst (execute_adb_command e link w) \<and>
         \<not> fst (check_adb_connection e w) \<and>
         (extract_id_from_url (py_strip url) = Some tok \<longrightarrow>
            \<not> fst (process_single_url e url w) \<and>
            file_loop e n i c (url # rest) w =
              file_loop e n (i + 1) c rest
                (w\<lparr>calls := Suc (calls w),
                   trace := trace w @
                     [Processing url, Subprocess (AmStart (convert_to_app_url tok) adb_package)] @
                     (if i < n then [Sleep 1] else [])\<rparr>) \<and>
            processed (trace (snd (file_loop e n i c (url # rest) w))) =
              processed (trace w) @ url # rest) \<and>
         (screen_scan e (scans w) = Decoded (q # qs) \<and> q \<noteq> [] \<and> validate_xhs_url q \<longrightarrow>
            fst (scan_attempt e w) = Some False \<and>
            fst (run_attempts e max_attempts delay (attempt # atts) w) = Returned False)"
proof -
  have x: "\<not> exit_ok (subprocess_run e (calls w))"
    using assms by (simp add: exit_ok_def)
  have "\<not> fst (execute_adb_command e link w)"
    using x by (simp add: execute_adb_command_simp)
  moreover have "\<not> fst (check_adb_connection e w)"
    using assms by (simp add: check_adb_connection_def subprocess_def)
  moreover have "extract_id_from_url (py_strip url) = Some tok \<longrightarrow>
            \<not> fst (process_single_url e url w) \<and>
            file_loop e n i c (url # rest) w =
              file_loop e n (i + 1) c rest
                (w\<lparr>calls := Suc (calls w),
                   trace := trace w @
                     [Processing url, Subprocess (AmStart (convert_to_app_url tok) adb_package)] @
                     (if i < n then [Sleep 1] else [])\<rparr>)"
    using x extract_id_nonempty[of "py_strip url" tok]
    by (auto simp: process_single_url_cases py_sleep_1)
  moreover have "processed (trace (snd (file_loop e n i c (url # rest) w))) =
              processed (trace w) @ url # rest"
    using file_loop_events[of e n i c "url # rest" w] by (auto simp: processed_append)
  moreover have "screen_scan e (scans w) = Decoded (q # qs) \<and> q \<noteq> [] \<and> validate_xhs_url q \<longrightarrow>
            fst (scan_attempt e w) = Some False \<and>
            fst (run_attempts e max_attempts delay (attempt # atts) w) = Returned False"
    using x by (simp add: scan_attempt_cases Let_def)
  ultimately show ?thesis by blast
qed

lemma example_id_nonempty: "example_id \<noteq> []"
  by (simp add: example_id_def str_of_def)

lemma file_env_adb_vanishes:
  "process_urls_from_file env_adb_vanishes (FileLines [example_url, example_url])
     (initial_world []) =
     (Some (0, 2),
      \<lparr>calls = 3, scans = 0, stdin = [],
       trace = [Subprocess AdbDevices,
                Processing example_url, Subprocess (AmStart example_link adb_package), Sleep 1,
                Processing example_url, Subprocess (AmStart example_link adb_package)]\<rparr>)"
  by (simp add: process_urls_from_file_unfold strip_example_url example_url_nonempty
      check_env_adb_vanishes process_single_url_cases extract_example_url convert_example_id
      env_adb_vanishes_fields exit_ok_def py_sleep_1 example_id_nonempty)

text \<open>The executable is missing from the first dispatch on.\<close>

theorem missing_executable_is_ordinary_failure_witness:
  "subprocess_run env_adb_vanishes 1 = FileNotFoundError \<and>
   \<not> fst (execute_adb_command env_adb_vanishes example_link
      \<lparr>calls = 1, scans = 0, stdin = [], trace = []\<rparr>) \<and>
   extract_id_from_url (py_strip example_url) = Some example_id \<and>
   \<not> fst (process_single_url env_adb_vanishes example_url
      \<lparr>calls = 1, scans = 0, stdin = [], trace = []\<rparr>) \<and>
   processed (trace (snd (file_loop env_adb_vanishes 2 1 0 [example_url, example_url]
      \<lparr>calls = 1, scans = 0, stdin = [], trace = []\<rparr>))) = [example_url, example_url] \<and>
   fst (scan_attempt env_adb_vanishes \<lparr>calls = 1, scans = 0, stdin = [], trace = []\<rparr>) =
     Some False"
proof -
  have 1: "subprocess_run env_adb_vanishes (calls \<lparr>calls = 1, scans = 0, stdin = [], trace = []\<rparr>) =
      FileNotFoundError"
    by (simp add: env_adb_vanishes_fields)
  have 2: "extract_id_from_url (py_strip example_url) = Some example_id"
    by (simp add: strip_example_url extract_example_url)
  have 3: "screen_scan env_adb_vanishes (scans \<lparr>calls = 1, scans = 0, stdin = [], trace = []\<rparr>) =
      Decoded (example_url # []) \<and> example_url \<noteq> [] \<and> validate_xhs_url example_url"
    by (simp add: env_adb_vanishes_fields example_url_nonempty validate_example_url)
  from missing_executable_is_ordinary_failure
    [OF 1, of example_link example_url example_id 2 1 0 "[example_url]" example_url "[]" 10 3 1 "[]"]
    2 3
  have "\<not> fst (execute_adb_command env_adb_vanishes example_link
          \<lparr>calls = 1, scans = 0, stdin = [], trace = []\<rparr>) \<and>
    \<not> fst (process_single_url env_adb_vanishes example_url
          \<lparr>calls = 1, scans = 0, stdin = [], trace = []\<rparr>) \<and>
    processed (trace (snd (file_loop env_adb_vanishes 2 1 0 (example_url # [example_url])
          \<lparr>calls = 1, scans = 0, stdin = [], trace = []\<rparr>))) =
      processed (trace \<lparr>calls = 1, scans = 0, stdin = [], trace = []\<rparr>) @
        example_url # [example_url] \<and>
    fst (scan_attempt env_adb_vanishes \<lparr>calls = 1, scans = 0, stdin = [], trace = []\<rparr>) =
      Some False"
    by blast
  then show ?thesis
    using 2 by (simp del: file_loop.simps add: env_adb_vanishes_fields)
qed

text \<open>
  C7 as stated fails: the executable is missing at the dispatch of the first of two
  inputs, and the batch goes on to the second input, dispatches it too and prints its
  summary, 0 of 2.
\<close>

theorem batch_continues_after_missing_executable:
  "subprocess_run env_adb_vanishes 1 = FileNotFoundError \<and>
   subprocess_run env_adb_vanishes 2 = FileNotFoundError \<and>
   process_urls_from_file env_adb_vanishes (FileLines [example_url, example_url])
     (initial_world []) =
     (Some (0, 2),
      \<lparr>calls = 3, scans = 0, stdin = [],
       trace = [Subprocess AdbDevices,
                Processing example_url, Subprocess (AmStart example_link adb_package), Sleep 1,
                Processing example_url, Subprocess (AmStart example_link adb_package)]\<rparr>)"
  by (simp add: file_env_adb_vanishes env_adb_vanishes_fields)

lemma process_urls_from_file_events:
  assumes "urls = map py_strip (filter (\<lambda>line. py_strip line \<noteq> []) ls)" and "urls \<noteq> []"
    and "fst (check_adb_connection e (initial_world inp))"
  shows "processed (trace (snd (process_urls_from_file e (FileLines ls) (initial_world inp)))) = urls"
    and "count_list (trace (snd (process_urls_from_file e (FileLines ls) (initial_world inp))))
           (Sleep 1) = length urls - 1"
    and "fst (process_urls_from_file e (FileLines ls) (initial_world inp)) =
           Some (length (filter (\<lambda>ok. ok)
                   (file_results e (length urls) 1 urls
                      (snd (check_adb_connection e (initial_world inp))))),
                 length urls)"
    and "length (file_results e (length urls) 1 urls
           (snd (check_adb_connection e (initial_world inp)))) = length urls"
proof -
  let ?w1 = "snd (check_adb_connection e (initial_world inp))"
  have r: "process_urls_from_file e (FileLines ls) (initial_world inp) =
      (Some (fst (file_loop e (length urls) 1 0 urls ?w1), length urls),
       snd (file_loop e (length urls) 1 0 urls ?w1))"
    using assms by (simp add: process_urls_from_file_unfold)
  from file_loop_events[of e "length urls" 1 0 urls ?w1] obtain evs where
    evs: "trace (snd (file_loop e (length urls) 1 0 urls ?w1)) = trace ?w1 @ evs"
      "processed evs = urls" "count_list evs (Sleep 1) = min (length urls) (length urls - 1)"
    by blast
  have t1: "trace ?w1 = [Subprocess AdbDevices]"
    by (simp add: check_adb_connection_world initial_world_def)
  show "processed (trace (snd (process_urls_from_file e (FileLines ls) (initial_world inp)))) = urls"
    using r evs t1 by simp
  show "count_list (trace (snd (process_urls_from_file e (FileLines ls) (initial_world inp))))
           (Sleep 1) = length urls - 1"
    using r evs t1 by simp
  show "fst (process_urls_from_file e (FileLines ls) (initial_world inp)) =
           Some (length (filter (\<lambda>ok. ok) (file_results e (length urls) 1 urls ?w1)), length urls)"
    using r file_loop_count[of e "length urls" 1 0 urls ?w1] by simp
  show "length (file_results e (length urls) 1 urls ?w1) = length urls"
    using file_loop_count[of e "length urls" 1 0 urls ?w1] by simp
qed

lemma process_urls_from_input_results:
  assumes "read_urls [] inp = (Some urls, inp')" and "urls \<noteq> []"
    and "fst (check_adb_connection e (initial_world inp))"
  shows "prefix (processed (trace (snd (process_urls_from_input e (initial_world inp))))) urls"
    and "length (input_results e (length urls) 1 urls
           ((snd (check_adb_connection e (initial_world inp)))\<lparr>stdin := inp'\<rparr>)) =
         length (processed (trace (snd (process_urls_from_input e (initial_world inp)))))"
    and "\<forall>c t. fst (process_urls_from_input e (initial_world inp)) = Returned (Some (c, t)) \<longrightarrow>
           t = length urls \<and>
           c = length (filter (\<lambda>ok. ok)
                 (input_results e (length urls) 1 urls
                    ((snd (check_adb_connection e (initial_world inp)))\<lparr>stdin := inp'\<rparr>)))"
proof -
  let ?w2 = "(snd (check_adb_connection e (initial_world inp)))\<lparr>stdin := inp'\<rparr>"
  have s: "stdin (initial_world inp) = inp" by (simp add: initial_world_def)
  have r: "process_urls_from_input e (initial_world inp) =
      (case fst (input_loop e (length urls) 1 0 urls ?w2) of
         Raised \<Rightarrow> Raised
       | Returned success_count \<Rightarrow> Returned (Some (success_count, length urls)),
       snd (input_loop e (length urls) 1 0 urls ?w2))"
    using assms by (simp add: process_urls_from_input_unfold s)
  have t2: "trace ?w2 = [Subprocess AdbDevices]"
    by (simp add: check_adb_connection_world initial_world_def)
  from input_loop_events[of e "length urls" 1 0 urls ?w2] obtain evs where
    evs: "trace (snd (input_loop e (length urls) 1 0 urls ?w2)) = trace ?w2 @ evs"
      "prefix (processed evs) urls"
      "length (input_results e (length urls) 1 urls ?w2) = length (processed evs)"
      "\<forall>c'. fst (input_loop e (length urls) 1 0 urls ?w2) = Returned c' \<longrightarrow>
         c' = 0 + length (filter (\<lambda>ok. ok) (input_results e (length urls) 1 urls ?w2))"
    by blast
  show "prefix (processed (trace (snd (process_urls_from_input e (initial_world inp))))) urls"
    using r evs t2 by simp
  show "length (input_results e (length urls) 1 urls ?w2) =
         length (processed (trace (snd (process_urls_from_input e (initial_world inp)))))"
    using r evs t2 by simp
  show "\<forall>c t. fst (process_urls_from_input e (initial_world inp)) = Returned (Some (c, t)) \<longrightarrow>
           t = length urls \<and>
           c = length (filter (\<lambda>ok. ok) (input_results e (length urls) 1 urls ?w2))"
    using r evs(4) by (auto split: outcome.splits)
qed

lemma input_loop_abort:
  assumes "i < n"
    and "stdin w = KeyboardInterrupt # inp \<or> (\<exists>l. stdin w = Line l # inp \<and> is_quit l)"
  shows "processed (trace (snd (input_loop e n i c (url # rest) w))) = processed (trace w) @ [url]"
    and "fst (input_loop e n i c (url # rest) w) =
           Returned (if fst (process_single_url e url w) then c + 1 else c)"
proof -
  obtain ok w1 where p: "process_single_url e url w = (ok, w1)"
    by (cases "process_single_url e url w")
  from process_single_url_stdin[of e url w] p have s: "stdin w1 = stdin w" by simp
  from process_single_url_events[of e url w] p obtain evs where
    evs: "trace w1 = trace w @ Processing url # evs" "processed evs = []" by auto
  from assms(2) have "snd (input_loop e n i c (url # rest) w) = w1\<lparr>stdin := inp\<rparr> \<and>
      fst (input_loop e n i c (url # rest) w) = Returned (if ok then c + 1 else c)"
    using p s assms(1) by (auto simp: Let_def)
  with evs p show "processed (trace (snd (input_loop e n i c (url # rest) w))) =
      processed (trace w) @ [url]"
    and "fst (input_loop e n i c (url # rest) w) =
           Returned (if fst (process_single_url e url w) then c + 1 else c)"
    by (simp_all add: processed_append)
qed

lemma input_loop_continue:
  assumes "i < n" and "stdin w = Line l # inp" and "\<not> is_quit l"
  shows "input_loop e n i c (url # rest) w =
           input_loop e n (i + 1) (if fst (process_single_url e url w) then c + 1 else c) rest
             ((snd (process_single_url e url w))\<lparr>stdin := inp\<rparr>)"
proof -
  obtain ok w1 where p: "process_single_url e url w = (ok, w1)"
    by (cases "process_single_url e url w")
  from process_single_url_stdin[of e url w] p have s: "stdin w1 = stdin w" by simp
  show ?thesis using p s assms by (simp add: Let_def)
qed

text \<open>
  C8. From a file: when a device is attached, \<open>process_single_url\<close> is called on the
  stripped non-blank lines, each once and in order; the count printed is the number of
  these calls that returned \<open>True\<close>, out of the number of lines; and the pause of one second
  is made between two items, so once less than there are items. Typed in: no such pause is
  ever made; the items processed are the lines typed, in order, or the first of them, and the
  count printed is the number of calls that returned \<open>True\<close>. After an item that is not the
  last, \<open>q\<close> or Ctrl-C ends the loop with no later item processed, and any other answer
  goes on with the next item.
\<close>

theorem batch_runner_order_count_delay:
  "(urls = map py_strip (filter (\<lambda>line. py_strip line \<noteq> []) ls) \<and> urls \<noteq> [] \<and>
    fst (check_adb_connection e (initial_world inp)) \<longrightarrow>
      processed (trace (snd (process_urls_from_file e (FileLines ls) (initial_world inp)))) = urls \<and>
      length (file_results e (length urls) 1 urls
        (snd (check_adb_connection e (initial_world inp)))) = length urls \<and>
      fst (process_urls_from_file e (FileLines ls) (initial_world inp)) =
        Some (length (filter (\<lambda>ok. ok)
                (file_results e (length urls) 1 urls
                   (snd (check_adb_connection e (initial_world inp))))),
              length urls) \<and>
      count_list (trace (snd (process_urls_from_file e (FileLines ls) (initial_world inp))))
        (Sleep 1) = length urls - 1) \<and>
   count_list (trace (snd (process_urls_from_input e (initial_world inp)))) (Sleep 1) = 0 \<and>
   (read_urls [] inp = (Some typed, inp') \<and> typed \<noteq> [] \<and>
    fst (check_adb_connection e (initial_world inp)) \<longrightarrow>
      prefix (processed (trace (snd (process_urls_from_input e (initial_world inp))))) typed \<and>
      length (input_results e (length typed) 1 typed
        ((snd (check_adb_connection e (initial_world inp)))\<lparr>stdin := inp'\<rparr>)) =
        length (processed (trace (snd (process_urls_from_input e (initial_world inp))))) \<and>
      (\<forall>c t. fst (process_urls_from_input e (initial_world inp)) = Returned (Some (c, t)) \<longrightarrow>
         t = length typed \<and>
         c = length (filter (\<lambda>ok. ok)
               (input_results e (length typed) 1 typed
                  ((snd (check_adb_connection e (initial_world inp)))\<lparr>stdin := inp'\<rparr>))))) \<and>
   (i < n \<and> (stdin w = KeyboardInterrupt # answers \<or> (stdin w = Line l # answers \<and> is_quit l)) \<longrightarrow>
      processed (trace (snd (input_loop e n i c (url # rest) w))) = processed (trace w) @ [url] \<and>
      fst (input_loop e n i c (url # rest) w) =
        Returned (if fst (process_single_url e url w) then c + 1 else c)) \<and>
   (i < n \<and> stdin w = Line l # answers \<and> \<not> is_quit l \<longrightarrow>
      input_loop e n i c (url # rest) w =
        input_loop e n (i + 1) (if fst (process_single_url e url w) then c + 1 else c) rest
          ((snd (process_single_url e url w))\<lparr>stdin := answers\<rparr>))"
proof -
  have "count_list (trace (snd (process_urls_from_input e (initial_world inp)))) (Sleep 1) = 0"
    using process_urls_from_input_events[of e inp] by auto
  moreover have "i < n \<and> (stdin w = KeyboardInterrupt # answers \<or> (stdin w = Line l # answers \<and> is_quit l)) \<longrightarrow>
      processed (trace (snd (input_loop e n i c (url # rest) w))) = processed (trace w) @ [url] \<and>
      fst (input_loop e n i c (url # rest) w) =
        Returned (if fst (process_single_url e url w) then c + 1 else c)"
    using input_loop_abort[of i n w answers e c url rest] by blast
  moreover have "i < n \<and> stdin w = Line l # answers \<and> \<not> is_quit l \<longrightarrow>
      input_loop e n i c (url # rest) w =
        input_loop e n (i + 1) (if fst (process_single_url e url w) then c + 1 else c) rest
          ((snd (process_single_url e url w))\<lparr>stdin := answers\<rparr>)"
    using input_loop_continue[of i n w l answers e c url rest] by blast
  ultimately show ?thesis
    using process_urls_from_file_events[of urls ls e inp]
      process_urls_from_input_results[of inp typed inp' e]
    by blast
qed

lemma initial_world_fields:
  "calls (initial_world inp) = 0" "scans (initial_world inp) = 0"
  "stdin (initial_world inp) = inp" "trace (initial_world inp) = []"
  by (simp_all add: initial_world_def)

lemma strip_example_line: "py_strip (example_url @ [10]) = example_url"
  by (simp add: py_strip_def example_url_def str_of_def py_isspace_def)

lemma strip_blank_line: "py_strip [10] = []"
  by (simp add: py_strip_def py_isspace_def)

lemma is_quit_q: "is_quit (str_of ''q'')"
  by (simp add: is_quit_def py_strip_def str_of_def py_isspace_def)

lemma file_env_tap_fails:
  "process_urls_from_file env_tap_fails (FileLines [example_url @ [10], [10], example_url])
     (initial_world []) =
     (Some (1, 2),
      \<lparr>calls = 4, scans = 0, stdin = [],
       trace = [Subprocess AdbDevices,
                Processing example_url, Subprocess (AmStart example_link adb_package), Sleep 2,
                Subprocess (InputTap 865 2690), Sleep 1,
                Processing example_url, Subprocess (AmStart example_link adb_package)]\<rparr>)"
  by (simp add: process_urls_from_file_unfold strip_example_url strip_example_line
      strip_blank_line example_url_nonempty
      check_env_tap_fails process_single_url_cases extract_example_url convert_example_id
      env_tap_fails_fields exit_ok_def py_sleep_1 example_id_nonempty)

lemma input_env_tap_fails:
  "process_urls_from_input env_tap_fails
     (initial_world [Line example_url, Line example_url, Line [], Line (str_of ''q'')]) =
     (Returned (Some (1, 2)),
      \<lparr>calls = 3, scans = 0, stdin = [],
       trace = [Subprocess AdbDevices,
                Processing example_url, Subprocess (AmStart example_link adb_package), Sleep 2,
                Subprocess (InputTap 865 2690)]\<rparr>)"
  by (simp add: process_urls_from_input_unfold strip_example_url example_url_nonempty
      check_env_tap_fails process_single_url_cases extract_example_url convert_example_id
      env_tap_fails_fields exit_ok_def example_id_nonempty is_quit_q initial_world_fields
      py_strip_def[of "[]"])

text \<open>
  A file of two links around a blank line; and two links typed, with \<open>q\<close> after the
  first.
\<close>

theorem batch_runner_order_count_delay_witness:
  "[example_url, example_url] =
     map py_strip (filter (\<lambda>line. py_strip line \<noteq> []) [example_url @ [10], [10], example_url]) \<and>
   fst (check_adb_connection env_tap_fails (initial_world [])) \<and>
   processed (trace (snd (process_urls_from_file env_tap_fails
      (FileLines [example_url @ [10], [10], example_url]) (initial_world [])))) =
     [example_url, example_url] \<and>
   fst (process_urls_from_file env_tap_fails
      (FileLines [example_url @ [10], [10], example_url]) (initial_world [])) = Some (1, 2) \<and>
   count_list (trace (snd (process_urls_from_file env_tap_fails
      (FileLines [example_url @ [10], [10], example_url]) (initial_world [])))) (Sleep 1) = 1 \<and>
   read_urls [] [Line example_url, Line example_url, Line [], Line (str_of ''q'')] =
     (Some [example_url, example_url], [Line (str_of ''q'')]) \<and>
   process_urls_from_input env_tap_fails
     (initial_world [Line example_url, Line example_url, Line [], Line (str_of ''q'')]) =
     (Returned (Some (1, 2)),
      \<lparr>calls = 3, scans = 0, stdin = [],
       trace = [Subprocess AdbDevices,
                Processing example_url, Subprocess (AmStart example_link adb_package), Sleep 2,
                Subprocess (InputTap 865 2690)]\<rparr>)"
proof -
  have 1: "[example_url, example_url] =
     map py_strip (filter (\<lambda>line. py_strip line \<noteq> []) [example_url @ [10], [10], example_url]) \<and>
     [example_url, example_url] \<noteq> [] \<and>
     fst (check_adb_connection env_tap_fails (initial_world []))"
    by (simp add: strip_example_line strip_blank_line strip_example_url example_url_nonempty
        check_env_tap_fails)
  have 2: "read_urls [] [Line example_url, Line example_url, Line [], Line (str_of ''q'')] =
     (Some [example_url, example_url], [Line (str_of ''q'')])"
    by (simp add: strip_example_url example_url_nonempty py_strip_def[of "[]"])
  note t = batch_runner_order_count_delay
    [where urls = "[example_url, example_url]" and ls = "[example_url @ [10], [10], example_url]"
       and e = env_tap_fails and inp = "[]"]
  from t[THEN conjunct1] 1
  have c: "processed (trace (snd (process_urls_from_file env_tap_fails
      (FileLines [example_url @ [10], [10], example_url]) (initial_world [])))) =
     [example_url, example_url] \<and>
     length (file_results env_tap_fails (length [example_url, example_url]) 1
        [example_url, example_url]
        (snd (check_adb_connection env_tap_fails (initial_world [])))) =
       length [example_url, example_url] \<and>
     fst (process_urls_from_file env_tap_fails
        (FileLines [example_url @ [10], [10], example_url]) (initial_world [])) =
        Some (length (filter (\<lambda>ok. ok)
                (file_results env_tap_fails (length [example_url, example_url]) 1
                   [example_url, example_url]
                   (snd (check_adb_connection env_tap_fails (initial_world []))))),
              length [example_url, example_url]) \<and>
     count_list (trace (snd (process_urls_from_file env_tap_fails
      (FileLines [example_url @ [10], [10], example_url]) (initial_world [])))) (Sleep 1) =
     length [example_url, example_url] - 1"
    by (rule mp)
  show ?thesis
    using c[THEN conjunct1] 1 2 by (simp add: file_env_tap_fails input_env_tap_fails)
qed

lemma file_env_all_ok:
  "trace (snd (process_urls_from_file env_all_ok (FileLines [example_url]) (initial_world []))) =
     [Subprocess AdbDevices,
      Processing example_url, Subprocess (AmStart example_link adb_package), Sleep 2,
      Subprocess (InputTap 865 2690)]"
  by (simp add: process_urls_from_file_unfold strip_example_url example_url_nonempty
      check_env_all_ok_world process_single_url_cases extract_example_url convert_example_id
      env_all_ok_fields exit_ok_def example_id_nonempty)

lemma input_env_all_ok:
  "trace (snd (process_urls_from_input env_all_ok (initial_world [Line example_url]))) =
     [Subprocess AdbDevices,
      Processing example_url, Subprocess (AmStart example_link adb_package), Sleep 2,
      Subprocess (InputTap 865 2690)]"
  by (simp add: process_urls_from_input_unfold strip_example_url example_url_nonempty
      check_env_all_ok_world process_single_url_cases extract_example_url convert_example_id
      env_all_ok_fields exit_ok_def example_id_nonempty initial_world_fields)

text \<open>One tap in each of the three flows.\<close>

theorem tap_coordinates_fixed_witness:
  "taps (trace (snd (run env_all_ok 10 3 (initial_world [])))) = [(800, 2210)] \<and>
   taps (trace (snd (process_urls_from_file env_all_ok (FileLines [example_url])
     (initial_world [])))) = [(865, 2690)] \<and>
   taps (trace (snd (process_urls_from_input env_all_ok (initial_world [Line example_url])))) =
     [(865, 2690)]"
  using tap_coordinates_fixed[of env_all_ok 10 3 "[]" "FileLines [example_url]"]
  by (simp add: run_env_all_ok file_env_all_ok input_env_all_ok)

end
